theory Spec2Isabelle
  imports Main
begin

section \<open>The diagnose command of \<open>command/operator_diagnose.go\<close>\<close>

text \<open>
  The development embeds \<open>OperatorDiagnoseCommand.RunWithParsedFlags\<close>. The function is
  sequential; its effects are made explicit by passing a record of everything it reads
  and writes: the command object, the run-scoped span tree of package \<open>diagnose\<close>, the
  local variable \<open>config\<close>, the listeners that are currently bound, and the ordered log of
  the calls made to collaborators and of what is written to the user interface and to
  standard output.

  A Go \<open>error\<close> is its message; \<open>nil\<close> is \<open>None\<close>.
\<close>

type_synonym error = string

subsection \<open>Span tree (package \<open>vault/diagnose\<close>)\<close>

text \<open>
  Modelled from the spec: the types of package \<open>vault/diagnose\<close> are not among the files
  at hand. Section 3 of the specification gives a span its name, status, messages and
  children, and orders the statuses \<open>error > warn > skip > ok\<close>; a report is the tree at
  shutdown together with the flat list of messages, each with the path of names to its
  span.
\<close>

datatype severity = SevWarn | SevError

datatype status = StOk | StWarn | StError | StSkip

datatype span =
  Span (span_name: string) (span_status: status)
       (span_messages: "(severity \<times> string) list")
       (span_children: "span list") (span_ended: bool)

text \<open>
  A context carries the active span: the list of child positions leading to it from the
  top of the tree. \<open>context.Background()\<close> carries none and is the empty list.
\<close>

type_synonym span_ctx = "nat list"

record Report =
  tree :: "span list"
  flat :: "(string list \<times> severity \<times> string) list"

subsection \<open>Configuration and listeners\<close>

text \<open>
  The types \<open>cserver.Config\<close>, \<open>configutil.Listener\<close> and \<open>listenerutil.Listener\<close> are
  declared outside the files at hand; the records hold the fields that
  \<open>RunWithParsedFlags\<close> reads, and the address that tells two listener stanzas apart.
  A bound \<open>net.Listener\<close> is a socket handle.
\<close>

record configutil_Listener =
  Address :: string
  TLSDisable :: bool
  TLSDisableClientCerts :: bool

record Storage =
  DisableClustering :: bool

record cserver_Config =
  Listeners :: "configutil_Listener list"
  HAStorage :: "Storage option"

record listenerutil_Listener =
  Listener :: nat
  Config :: configutil_Listener

subsection \<open>Collaborators\<close>

text \<open>
  The outcomes of the calls that leave the function are parameters of the run:
  \<open>server.parseConfig\<close>, \<open>config.Validate\<close>, binding one listener,
  \<open>listenerutil.TLSConfig\<close>, \<open>diagnose.ListenerChecks\<close>, \<open>server.setupStorage\<close> and the
  version string.
\<close>

record env =
  parseConfig :: "string list \<Rightarrow> error + cserver_Config"
  Validate :: "cserver_Config \<Rightarrow> string list"
  NewListener :: "configutil_Listener \<Rightarrow> error + nat"
  TLSConfig :: "configutil_Listener \<Rightarrow> error option"
  ListenerChecks :: "listenerutil_Listener list \<Rightarrow> error option"
  setupStorage :: "cserver_Config \<Rightarrow> error option"
  FullVersionNumber :: string

subsection \<open>The command and the state of a run\<close>

record Once =
  once_done :: bool

record OperatorDiagnoseCommand =
  flagDebug :: bool
  flagSkips :: "string list"
  flagConfigs :: "string list"
  cleanupGuard :: Once

datatype event =
    UI_Error string
  | UI_Output string
  | Diag_Init
  | Diag_Shutdown
  | Stdout_Write Report
  | Call_parseConfig "string list"
  | Call_InitListeners
  | Call_NewListener configutil_Listener
  | Call_TLSConfig configutil_Listener
  | Call_ListenerChecks "listenerutil_Listener list"
  | Call_Close nat
  | Call_setupStorage

record world =
  cmd :: OperatorDiagnoseCommand
  spans :: "span list"
  config :: "cserver_Config option"
  open_listeners :: "nat list"
  trace :: "event list"

datatype outcome = Exit int | Panic

definition emit :: "event \<Rightarrow> world \<Rightarrow> world" where
  "emit e w = w\<lparr>trace := trace w @ [e]\<rparr>"

subsection \<open>Operations of the span tree\<close>

text \<open>
  Modelled from the spec: package \<open>vault/diagnose\<close> (\<open>Init\<close>, \<open>StartSpan\<close>, \<open>End\<close>, \<open>Warn\<close>,
  \<open>Error\<close>, \<open>Test\<close>, \<open>Shutdown\<close>, \<open>Report.Write\<close>) is called by the command and is not among
  the files at hand. The definitions of this subsection follow sections 3, 4.1 and 4.2 of
  the specification. Identifiers and clock times of spans are left out.
\<close>

fun rank :: "status \<Rightarrow> nat" where
  "rank StOk = 0"
| "rank StSkip = 1"
| "rank StWarn = 2"
| "rank StError = 3"

definition worst :: "status \<Rightarrow> status \<Rightarrow> status" where
  "worst a b = (if rank a < rank b then b else a)"

fun sev_status :: "severity \<Rightarrow> status" where
  "sev_status SevWarn = StWarn"
| "sev_status SevError = StError"

text \<open>Recompute a span's status: the worst of what it has, its messages and its children.\<close>

fun absorb :: "span \<Rightarrow> span" where
  "absorb (Span n st ms ks e) =
     Span n (fold worst (map (sev_status \<circ> fst) ms @ map span_status ks) st) ms ks e"

fun add_messages :: "(severity \<times> string) list \<Rightarrow> span \<Rightarrow> span" where
  "add_messages ms' (Span n st ms ks e) = Span n st (ms @ ms') ks e"

definition add_message :: "severity \<times> string \<Rightarrow> span \<Rightarrow> span" where
  "add_message m s = add_messages [m] s"

fun set_status :: "status \<Rightarrow> span \<Rightarrow> span" where
  "set_status st' (Span n st ms ks e) = Span n st' ms ks e"

text \<open>
  The span a context carries is found by following the positions; an operation on a
  context that carries no span of the tree changes nothing.
\<close>

fun update_in :: "span_ctx \<Rightarrow> (span \<Rightarrow> span) \<Rightarrow> span \<Rightarrow> span" where
  "update_in [] f s = f s"
| "update_in (i # p) f (Span n st ms ks e) =
     Span n st ms (if i < length ks then ks[i := update_in p f (ks ! i)] else ks) e"

fun update_at :: "span_ctx \<Rightarrow> (span \<Rightarrow> span) \<Rightarrow> span list \<Rightarrow> span list" where
  "update_at [] f ss = ss"
| "update_at (i # p) f ss = (if i < length ss then ss[i := update_in p f (ss ! i)] else ss)"

fun add_child_in :: "span_ctx \<Rightarrow> span \<Rightarrow> span \<Rightarrow> span" where
  "add_child_in [] c (Span n st ms ks e) = Span n st ms (ks @ [c]) e"
| "add_child_in (i # p) c (Span n st ms ks e) =
     Span n st ms (if i < length ks then ks[i := add_child_in p c (ks ! i)] else ks) e"

fun add_child :: "span_ctx \<Rightarrow> span \<Rightarrow> span list \<Rightarrow> span list" where
  "add_child [] c ss = ss @ [c]"
| "add_child (i # p) c ss = (if i < length ss then ss[i := add_child_in p c (ss ! i)] else ss)"

fun num_children_in :: "span_ctx \<Rightarrow> span \<Rightarrow> nat" where
  "num_children_in [] s = length (span_children s)"
| "num_children_in (i # p) s =
     (if i < length (span_children s) then num_children_in p (span_children s ! i) else 0)"

fun num_children :: "span_ctx \<Rightarrow> span list \<Rightarrow> nat" where
  "num_children [] ss = length ss"
| "num_children (i # p) ss = (if i < length ss then num_children_in p (ss ! i) else 0)"

fun get_span_in :: "span_ctx \<Rightarrow> span \<Rightarrow> span option" where
  "get_span_in [] s = Some s"
| "get_span_in (i # p) s =
     (if i < length (span_children s) then get_span_in p (span_children s ! i) else None)"

fun get_span :: "span_ctx \<Rightarrow> span list \<Rightarrow> span option" where
  "get_span [] ss = None"
| "get_span (i # p) ss = (if i < length ss then get_span_in p (ss ! i) else None)"

text \<open>Ending a span closes it and recomputes the statuses from it up to the top.\<close>

fun end_in :: "span_ctx \<Rightarrow> span \<Rightarrow> span" where
  "end_in [] (Span n st ms ks e) = absorb (Span n st ms ks True)"
| "end_in (i # p) (Span n st ms ks e) =
     (if i < length ks then absorb (Span n st ms (ks[i := end_in p (ks ! i)]) e)
      else Span n st ms ks e)"

fun end_at :: "span_ctx \<Rightarrow> span list \<Rightarrow> span list" where
  "end_at [] ss = ss"
| "end_at (i # p) ss = (if i < length ss then ss[i := end_in p (ss ! i)] else ss)"

fun close_all :: "span \<Rightarrow> span" where
  "close_all (Span n st ms ks e) = absorb (Span n st ms (map close_all ks) True)"

fun flatten :: "string list \<Rightarrow> span \<Rightarrow> (string list \<times> severity \<times> string) list" where
  "flatten pfx (Span n st ms ks e) =
     map (Pair (pfx @ [n])) ms @ concat (map (flatten (pfx @ [n])) ks)"

fun names_of :: "span \<Rightarrow> string list" where
  "names_of (Span n st ms ks e) = n # concat (map names_of ks)"

definition all_names :: "span list \<Rightarrow> string list" where
  "all_names ss = concat (map names_of ss)"

definition diagnose_Init :: "world \<Rightarrow> world" where
  "diagnose_Init w = emit Diag_Init (w\<lparr>spans := []\<rparr>)"

definition diagnose_StartSpan :: "span_ctx \<Rightarrow> string \<Rightarrow> world \<Rightarrow> span_ctx \<times> world" where
  "diagnose_StartSpan ctx name w =
     (ctx @ [num_children ctx (spans w)],
      w\<lparr>spans := add_child ctx (Span name StOk [] [] False) (spans w)\<rparr>)"

definition span_End :: "span_ctx \<Rightarrow> world \<Rightarrow> world" where
  "span_End ctx w = w\<lparr>spans := end_at ctx (spans w)\<rparr>"

definition span_SetStatus :: "span_ctx \<Rightarrow> status \<Rightarrow> world \<Rightarrow> world" where
  "span_SetStatus ctx st w = w\<lparr>spans := update_at ctx (set_status st) (spans w)\<rparr>"

definition diagnose_Warn :: "span_ctx \<Rightarrow> string \<Rightarrow> world \<Rightarrow> world" where
  "diagnose_Warn ctx msg w = w\<lparr>spans := update_at ctx (add_message (SevWarn, msg)) (spans w)\<rparr>"

definition diagnose_Error :: "span_ctx \<Rightarrow> string \<Rightarrow> world \<Rightarrow> world" where
  "diagnose_Error ctx msg w = w\<lparr>spans := update_at ctx (add_message (SevError, msg)) (spans w)\<rparr>"

definition report_of :: "span list \<Rightarrow> Report" where
  "report_of t = \<lparr>tree = t, flat = concat (map (flatten []) t)\<rparr>"

definition diagnose_Shutdown :: "world \<Rightarrow> Report \<times> world" where
  "diagnose_Shutdown w =
     (let t = map close_all (spans w)
      in (report_of t, emit Diag_Shutdown (w\<lparr>spans := t\<rparr>)))"

definition Report_Write :: "Report \<Rightarrow> world \<Rightarrow> world" where
  "Report_Write r w = emit (Stdout_Write r) w"

text \<open>
  Modelled from the spec: \<open>diagnose.Test\<close> is not among the files at hand. Section 4.2 of
  the specification gives it the skip set as an argument: a name in the skip set gets a
  span marked \<open>skip\<close> and the function is not called; otherwise the function is called in
  the new span, and an error it returns marks the span, is recorded as a message and is
  returned unchanged.
\<close>

definition diagnose_Test ::
  "span_ctx \<Rightarrow> string \<Rightarrow> string list \<Rightarrow> (span_ctx \<Rightarrow> world \<Rightarrow> error option \<times> world)
     \<Rightarrow> world \<Rightarrow> error option \<times> world" where
  "diagnose_Test ctx name skipSet checkFn w =
     (case diagnose_StartSpan ctx name w of (ctx', w1) \<Rightarrow>
        if name \<in> set skipSet
        then (None, span_End ctx' (span_SetStatus ctx' StSkip w1))
        else (case checkFn ctx' w1 of
                (None, w2) \<Rightarrow> (None, span_End ctx' w2)
              | (Some e, w2) \<Rightarrow>
                  (Some e, span_End ctx' (diagnose_Error ctx' e (span_SetStatus ctx' StError w2)))))"

subsection \<open>The cleanup guard and the listeners\<close>

text \<open>
  \<open>sync.Once.Do\<close>: the function runs if the guard has not been used, and the guard is
  used from then on.
\<close>

definition cleanupGuard_Do :: "(world \<Rightarrow> world) \<Rightarrow> world \<Rightarrow> world" where
  "cleanupGuard_Do f w =
     (if once_done (cleanupGuard (cmd w)) then w
      else (let w' = f w in w'\<lparr>cmd := (cmd w')\<lparr>cleanupGuard := \<lparr>once_done = True\<rparr>\<rparr>\<rparr>))"

definition Listener_Close :: "nat \<Rightarrow> world \<Rightarrow> world" where
  "Listener_Close h w = emit (Call_Close h) (w\<lparr>open_listeners := removeAll h (open_listeners w)\<rparr>)"

definition listenerCloseFunc :: "listenerutil_Listener list \<Rightarrow> world \<Rightarrow> world" where
  "listenerCloseFunc lns w = fold (\<lambda>ln. Listener_Close (Listener ln)) lns w"

text \<open>
  Modelled from the spec: \<open>ServerCommand.InitListeners\<close> is called by the command and is
  not among the files at hand. Section 4.3 of the specification: the listeners are bound
  in configuration order and a bind failure is fatal for the whole check. Nothing but the
  cleanup guard closes a bound listener (section 5).
\<close>

fun bind_listeners ::
  "env \<Rightarrow> configutil_Listener list \<Rightarrow> listenerutil_Listener list \<Rightarrow> world
     \<Rightarrow> (error + listenerutil_Listener list) \<times> world" where
  "bind_listeners env [] lns w = (Inr lns, w)"
| "bind_listeners env (lc # lcs) lns w =
     (let w1 = emit (Call_NewListener lc) w
      in case NewListener env lc of
           Inl e \<Rightarrow> (Inl e, w1)
         | Inr h \<Rightarrow>
             bind_listeners env lcs (lns @ [\<lparr>Listener = h, Config = lc\<rparr>])
               (w1\<lparr>open_listeners := open_listeners w1 @ [h]\<rparr>))"

definition InitListeners ::
  "env \<Rightarrow> cserver_Config \<Rightarrow> bool \<Rightarrow> world \<Rightarrow> (error + listenerutil_Listener list) \<times> world" where
  "InitListeners env cfg disableClustering w =
     bind_listeners env (Listeners cfg) [] (emit Call_InitListeners w)"

subsection \<open>The three checks\<close>

text \<open>The function literal passed for "Parse configuration" (lines 153 to 165).\<close>

definition parseConfigCheck :: "env \<Rightarrow> span_ctx \<Rightarrow> world \<Rightarrow> error option \<times> world" where
  "parseConfigCheck env ctx w =
     (let w1 = emit (Call_parseConfig (flagConfigs (cmd w))) w
      in case parseConfig env (flagConfigs (cmd w)) of
           Inl e \<Rightarrow> (Some e, w1)
         | Inr cfg \<Rightarrow>
             (None, fold (diagnose_Warn ctx) (Validate env cfg) (w1\<lparr>config := Some cfg\<rparr>)))"

text \<open>
  One pass of the loop over the bound listeners (lines 191 to 212): \<open>Inl\<close> is the error
  the check returns with, \<open>Inr\<close> the sanitized listeners so far.
\<close>

definition process_listener ::
  "env \<Rightarrow> span_ctx \<Rightarrow> listenerutil_Listener \<Rightarrow> listenerutil_Listener list \<Rightarrow> world
     \<Rightarrow> (error + listenerutil_Listener list) \<times> world" where
  "process_listener env ctx ln sanitizedListeners w =
     (if TLSDisable (Config ln)
      then (Inr sanitizedListeners,
            diagnose_Warn ctx ''TLS is disabled in a Listener config stanza.'' w)
      else
        (let w1 = (if TLSDisableClientCerts (Config ln)
                   then diagnose_Warn ctx
                          ''TLS for a listener is turned on without requiring client certs.'' w
                   else w);
             w2 = emit (Call_TLSConfig (Config ln)) w1
         in case TLSConfig env (Config ln) of
              Some e \<Rightarrow>
                (Inl (''error creating TLS Configuration out of config file: '' @ e), w2)
            | None \<Rightarrow>
                (Inr (sanitizedListeners @ [\<lparr>Listener = Listener ln, Config = Config ln\<rparr>]), w2)))"

fun listener_loop ::
  "env \<Rightarrow> span_ctx \<Rightarrow> listenerutil_Listener list \<Rightarrow> listenerutil_Listener list \<Rightarrow> world
     \<Rightarrow> (error + listenerutil_Listener list) \<times> world" where
  "listener_loop env ctx [] sanitizedListeners w = (Inr sanitizedListeners, w)"
| "listener_loop env ctx (ln # lns) sanitizedListeners w =
     (case process_listener env ctx ln sanitizedListeners w of
        (Inl e, w1) \<Rightarrow> (Inl e, w1)
      | (Inr sanitized', w1) \<Rightarrow> listener_loop env ctx lns sanitized' w1)"

text \<open>
  The function literal passed for "init-listeners" (lines 176 to 214). The deferred
  \<open>c.cleanupGuard.Do(listenerCloseFunc)\<close> runs when the literal returns, after the value
  it returns has been computed; it is deferred only once \<open>InitListeners\<close> has returned
  without error.
\<close>

definition initListenersCheck ::
  "env \<Rightarrow> cserver_Config \<Rightarrow> bool \<Rightarrow> span_ctx \<Rightarrow> world \<Rightarrow> error option \<times> world" where
  "initListenersCheck env cfg disableClustering ctx w =
     (case InitListeners env cfg disableClustering w of
        (Inl e, w1) \<Rightarrow> (Some e, w1)
      | (Inr lns, w1) \<Rightarrow>
          (case listener_loop env ctx lns [] w1 of
             (Inl e, w2) \<Rightarrow> (Some e, cleanupGuard_Do (listenerCloseFunc lns) w2)
           | (Inr sanitizedListeners, w2) \<Rightarrow>
               (ListenerChecks env sanitizedListeners,
                cleanupGuard_Do (listenerCloseFunc lns)
                  (emit (Call_ListenerChecks sanitizedListeners) w2))))"

text \<open>The function literal passed for "storage" (lines 224 to 227).\<close>

definition storageCheck :: "env \<Rightarrow> cserver_Config \<Rightarrow> span_ctx \<Rightarrow> world \<Rightarrow> error option \<times> world" where
  "storageCheck env cfg ctx w = (setupStorage env cfg, emit Call_setupStorage w)"

subsection \<open>\<open>RunWithParsedFlags\<close>\<close>

text \<open>
  The statements after the \<open>defer\<close> (lines 129 to 231). The three calls of
  \<open>diagnose.Test\<close> pass a context, a name and a function: no skip set reaches them, and
  \<open>c.flagSkips\<close> is read nowhere, so the skip set of each call is empty. Dereferencing
  \<open>config\<close> while it is \<open>nil\<close> panics.
\<close>

definition run_checks :: "env \<Rightarrow> span_ctx \<Rightarrow> world \<Rightarrow> outcome \<times> world" where
  "run_checks env ctx w =
     (let w1 = diagnose_Error ctx ''nope, didn't work'' w;
          w2 = emit (UI_Output (FullVersionNumber env)) w1;
          w3 = w2\<lparr>config := None\<rparr>
      in case diagnose_Test ctx ''Parse configuration'' [] (parseConfigCheck env) w3 of
           (Some e, w4) \<Rightarrow> (Exit 1, w4)
         | (None, w4) \<Rightarrow>
             (case config w4 of
                None \<Rightarrow> (Panic, w4)
              | Some cfg \<Rightarrow>
                  (let disableClustering =
                         (case HAStorage cfg of None \<Rightarrow> False | Some ha \<Rightarrow> DisableClustering ha)
                   in case diagnose_Test ctx ''init-listeners'' []
                             (initListenersCheck env cfg disableClustering) w4 of
                        (Some e, w5) \<Rightarrow> (Exit 1, w5)
                      | (None, w5) \<Rightarrow>
                          (case diagnose_Test ctx ''storage'' [] (storageCheck env cfg) w5 of
                             (Some e, w6) \<Rightarrow> (Exit 1, w6)
                           | (None, w6) \<Rightarrow> (Exit 0, w6)))))"

text \<open>The deferred function (lines 123 to 127).\<close>

definition run_deferred :: "span_ctx \<Rightarrow> world \<Rightarrow> world" where
  "run_deferred ctx w =
     (let w1 = span_End ctx w
      in case diagnose_Shutdown w1 of (r, w2) \<Rightarrow> Report_Write r w2)"

definition RunWithParsedFlags :: "env \<Rightarrow> world \<Rightarrow> outcome \<times> world" where
  "RunWithParsedFlags env w =
     (if flagConfigs (cmd w) = []
      then (Exit 1, emit (UI_Error ''Must specify a configuration file using -config.'') w)
      else (case diagnose_StartSpan [] ''initialization'' (diagnose_Init w) of
              (ctx, w1) \<Rightarrow>
                (case run_checks env ctx w1 of
                   (rc, w2) \<Rightarrow> (rc, run_deferred ctx w2))))"

subsection \<open>What a run does, as functions of the collaborators' answers\<close>

text \<open>
  The functions below say, without any state, which listeners are bound, which calls are
  attempted and which error comes first. The theorems relate the run to them.
\<close>

fun bind_error :: "env \<Rightarrow> configutil_Listener list \<Rightarrow> error option" where
  "bind_error env [] = None"
| "bind_error env (lc # lcs) =
     (case NewListener env lc of Inl e \<Rightarrow> Some e | Inr h \<Rightarrow> bind_error env lcs)"

fun bound_listeners :: "env \<Rightarrow> configutil_Listener list \<Rightarrow> listenerutil_Listener list" where
  "bound_listeners env [] = []"
| "bound_listeners env (lc # lcs) =
     (case NewListener env lc of
        Inl e \<Rightarrow> []
      | Inr h \<Rightarrow> \<lparr>Listener = h, Config = lc\<rparr> # bound_listeners env lcs)"

fun bind_attempts :: "env \<Rightarrow> configutil_Listener list \<Rightarrow> configutil_Listener list" where
  "bind_attempts env [] = []"
| "bind_attempts env (lc # lcs) =
     lc # (case NewListener env lc of Inl e \<Rightarrow> [] | Inr h \<Rightarrow> bind_attempts env lcs)"

fun tls_error :: "env \<Rightarrow> listenerutil_Listener list \<Rightarrow> error option" where
  "tls_error env [] = None"
| "tls_error env (ln # lns) =
     (if TLSDisable (Config ln) then tls_error env lns
      else (case TLSConfig env (Config ln) of
              Some e \<Rightarrow> Some (''error creating TLS Configuration out of config file: '' @ e)
            | None \<Rightarrow> tls_error env lns))"

fun tls_attempts :: "env \<Rightarrow> listenerutil_Listener list \<Rightarrow> configutil_Listener list" where
  "tls_attempts env [] = []"
| "tls_attempts env (ln # lns) =
     (if TLSDisable (Config ln) then tls_attempts env lns
      else Config ln # (case TLSConfig env (Config ln) of
                          Some e \<Rightarrow> []
                        | None \<Rightarrow> tls_attempts env lns))"

fun listener_warnings :: "env \<Rightarrow> listenerutil_Listener list \<Rightarrow> string list" where
  "listener_warnings env [] = []"
| "listener_warnings env (ln # lns) =
     (if TLSDisable (Config ln)
      then ''TLS is disabled in a Listener config stanza.'' # listener_warnings env lns
      else (if TLSDisableClientCerts (Config ln)
            then [''TLS for a listener is turned on without requiring client certs.'']
            else [])
           @ (case TLSConfig env (Config ln) of
                Some e \<Rightarrow> []
              | None \<Rightarrow> listener_warnings env lns))"

definition sanitized :: "listenerutil_Listener list \<Rightarrow> listenerutil_Listener list" where
  "sanitized lns = filter (\<lambda>ln. \<not> TLSDisable (Config ln)) lns"

definition listeners_error :: "env \<Rightarrow> cserver_Config \<Rightarrow> error option" where
  "listeners_error env cfg =
     (case bind_error env (Listeners cfg) of
        Some e \<Rightarrow> Some e
      | None \<Rightarrow>
          (case tls_error env (bound_listeners env (Listeners cfg)) of
             Some e \<Rightarrow> Some e
           | None \<Rightarrow> ListenerChecks env (sanitized (bound_listeners env (Listeners cfg)))))"

definition close_events :: "bool \<Rightarrow> listenerutil_Listener list \<Rightarrow> event list" where
  "close_events released lns = (if released then [] else map (\<lambda>ln. Call_Close (Listener ln)) lns)"

definition listeners_events :: "env \<Rightarrow> cserver_Config \<Rightarrow> bool \<Rightarrow> event list" where
  "listeners_events env cfg released =
     Call_InitListeners # map Call_NewListener (bind_attempts env (Listeners cfg))
     @ (case bind_error env (Listeners cfg) of
          Some e \<Rightarrow> []
        | None \<Rightarrow>
            map Call_TLSConfig (tls_attempts env (bound_listeners env (Listeners cfg)))
            @ (case tls_error env (bound_listeners env (Listeners cfg)) of
                 Some e \<Rightarrow> []
               | None \<Rightarrow> [Call_ListenerChecks (sanitized (bound_listeners env (Listeners cfg)))])
            @ close_events released (bound_listeners env (Listeners cfg)))"

definition check_events :: "env \<Rightarrow> world \<Rightarrow> event list" where
  "check_events env w =
     UI_Output (FullVersionNumber env) # Call_parseConfig (flagConfigs (cmd w))
     # (case parseConfig env (flagConfigs (cmd w)) of
          Inl e \<Rightarrow> []
        | Inr cfg \<Rightarrow>
            listeners_events env cfg (once_done (cleanupGuard (cmd w)))
            @ (if listeners_error env cfg = None then [Call_setupStorage] else []))"

definition started_checks :: "env \<Rightarrow> world \<Rightarrow> string list" where
  "started_checks env w =
     ''Parse configuration''
     # (case parseConfig env (flagConfigs (cmd w)) of
          Inl e \<Rightarrow> []
        | Inr cfg \<Rightarrow>
            ''init-listeners'' # (if listeners_error env cfg = None then [''storage''] else []))"

subsection \<open>Reading the log and the tree\<close>

fun written :: "event \<Rightarrow> Report list" where
  "written (Stdout_Write r) = [r]"
| "written e = []"

definition reports_written :: "event list \<Rightarrow> Report list" where
  "reports_written tr = concat (map written tr)"

fun closed :: "event \<Rightarrow> nat list" where
  "closed (Call_Close h) = [h]"
| "closed e = []"

definition closed_handles :: "event list \<Rightarrow> nat list" where
  "closed_handles tr = concat (map closed tr)"

text \<open>The first call each check makes.\<close>

fun check_entry :: "event \<Rightarrow> bool" where
  "check_entry (Call_parseConfig paths) = True"
| "check_entry Call_InitListeners = True"
| "check_entry Call_setupStorage = True"
| "check_entry e = False"

text \<open>The number of messages of one severity in a span and below it.\<close>

fun count_sev :: "severity \<Rightarrow> span \<Rightarrow> nat" where
  "count_sev v (Span n st ms ks e) =
     length (filter (\<lambda>m. fst m = v) ms) + sum_list (map (count_sev v) ks)"

definition count_messages :: "severity \<Rightarrow> span list \<Rightarrow> nat" where
  "count_messages v ss = sum_list (map (count_sev v) ss)"

subsection \<open>Concrete runs\<close>

text \<open>
  A configuration with two listeners, the second with TLS disabled, and collaborators
  that all succeed; variants in which the second listener cannot be bound, parsing fails,
  no TLS configuration can be built, or the storage cannot be constructed. A command as
  flag parsing leaves it, given the values of \<open>-skip\<close>; one without \<open>-config\<close>; one whose
  guard has been used; and one with the root span already open.
\<close>

definition ex_tls :: configutil_Listener where
  "ex_tls = \<lparr>Address = ''127.0.0.1:8200'', TLSDisable = False, TLSDisableClientCerts = False\<rparr>"

definition ex_plain :: configutil_Listener where
  "ex_plain = \<lparr>Address = ''127.0.0.1:8300'', TLSDisable = True, TLSDisableClientCerts = False\<rparr>"

definition ex_config :: cserver_Config where
  "ex_config = \<lparr>Listeners = [ex_tls, ex_plain], HAStorage = None\<rparr>"

definition ex_env :: env where
  "ex_env =
     \<lparr>parseConfig = (\<lambda>paths. Inr ex_config),
      Validate = (\<lambda>cfg. [''unknown or unsupported field x'']),
      NewListener = (\<lambda>lc. Inr (if TLSDisable lc then 4 else 3)),
      TLSConfig = (\<lambda>lc. None),
      ListenerChecks = (\<lambda>lns. None),
      setupStorage = (\<lambda>cfg. None),
      FullVersionNumber = ''Vault v1.8.0''\<rparr>"

definition ex_env_bind_fails :: env where
  "ex_env_bind_fails =
     ex_env\<lparr>NewListener :=
       (\<lambda>lc. if TLSDisable lc then Inl ''bind: address already in use'' else Inr 3)\<rparr>"

definition ex_env_parse_fails :: env where
  "ex_env_parse_fails = ex_env\<lparr>parseConfig := (\<lambda>paths. Inl ''invalid syntax'')\<rparr>"

definition ex_world :: "string list \<Rightarrow> world" where
  "ex_world skips =
     \<lparr>cmd = \<lparr>flagDebug = False, flagSkips = skips, flagConfigs = [''config.hcl''],
             cleanupGuard = \<lparr>once_done = False\<rparr>\<rparr>,
      spans = [], config = None, open_listeners = [], trace = []\<rparr>"

definition ex_world_no_config :: world where
  "ex_world_no_config =
     \<lparr>cmd = \<lparr>flagDebug = False, flagSkips = [], flagConfigs = [],
             cleanupGuard = \<lparr>once_done = False\<rparr>\<rparr>,
      spans = [], config = None, open_listeners = [], trace = []\<rparr>"

definition ex_world_released :: world where
  "ex_world_released =
     \<lparr>cmd = \<lparr>flagDebug = False, flagSkips = [], flagConfigs = [''config.hcl''],
             cleanupGuard = \<lparr>once_done = True\<rparr>\<rparr>,
      spans = [], config = None, open_listeners = [], trace = []\<rparr>"

definition ex_env_tls_fails :: env where
  "ex_env_tls_fails = ex_env\<lparr>TLSConfig := (\<lambda>lc. Some ''open cert.pem: no such file'')\<rparr>"

definition ex_env_storage_fails :: env where
  "ex_env_storage_fails = ex_env\<lparr>setupStorage := (\<lambda>cfg. Some ''storage unreachable'')\<rparr>"

definition ex_world_started :: world where
  "ex_world_started =
     \<lparr>cmd = \<lparr>flagDebug = False, flagSkips = [], flagConfigs = [''config.hcl''],
             cleanupGuard = \<lparr>once_done = False\<rparr>\<rparr>,
      spans = [Span ''initialization'' StOk [] [] False],
      config = None, open_listeners = [], trace = []\<rparr>"

definition ex_listener_plain :: listenerutil_Listener where
  "ex_listener_plain = \<lparr>Listener = 4, Config = ex_plain\<rparr>"

section \<open>Lemmas about the operations\<close>

lemma emit_fields [simp]:
  "trace (emit e w) = trace w @ [e]" "cmd (emit e w) = cmd w" "spans (emit e w) = spans w"
  "config (emit e w) = config w" "open_listeners (emit e w) = open_listeners w"
  by (simp_all add: emit_def)

lemma Warn_fields [simp]:
  "trace (diagnose_Warn ctx m w) = trace w" "cmd (diagnose_Warn ctx m w) = cmd w"
  "config (diagnose_Warn ctx m w) = config w" "open_listeners (diagnose_Warn ctx m w) = open_listeners w"
  "spans (diagnose_Warn ctx m w) = update_at ctx (add_message (SevWarn, m)) (spans w)"
  by (simp_all add: diagnose_Warn_def)

lemma Error_fields [simp]:
  "trace (diagnose_Error ctx m w) = trace w" "cmd (diagnose_Error ctx m w) = cmd w"
  "config (diagnose_Error ctx m w) = config w" "open_listeners (diagnose_Error ctx m w) = open_listeners w"
  "spans (diagnose_Error ctx m w) = update_at ctx (add_message (SevError, m)) (spans w)"
  by (simp_all add: diagnose_Error_def)

lemma SetStatus_fields [simp]:
  "trace (span_SetStatus ctx st w) = trace w" "cmd (span_SetStatus ctx st w) = cmd w"
  "config (span_SetStatus ctx st w) = config w" "open_listeners (span_SetStatus ctx st w) = open_listeners w"
  "spans (span_SetStatus ctx st w) = update_at ctx (set_status st) (spans w)"
  by (simp_all add: span_SetStatus_def)

lemma End_fields [simp]:
  "trace (span_End ctx w) = trace w" "cmd (span_End ctx w) = cmd w"
  "config (span_End ctx w) = config w" "open_listeners (span_End ctx w) = open_listeners w"
  "spans (span_End ctx w) = end_at ctx (spans w)"
  by (simp_all add: span_End_def)

lemma StartSpan_fields [simp]:
  "fst (diagnose_StartSpan ctx name w) = ctx @ [num_children ctx (spans w)]"
  "trace (snd (diagnose_StartSpan ctx name w)) = trace w"
  "cmd (snd (diagnose_StartSpan ctx name w)) = cmd w"
  "config (snd (diagnose_StartSpan ctx name w)) = config w"
  "open_listeners (snd (diagnose_StartSpan ctx name w)) = open_listeners w"
  "spans (snd (diagnose_StartSpan ctx name w)) = add_child ctx (Span name StOk [] [] False) (spans w)"
  by (simp_all add: diagnose_StartSpan_def)

lemma fold_Warn_fields [simp]:
  "trace (fold (diagnose_Warn ctx) ts w) = trace w"
  "cmd (fold (diagnose_Warn ctx) ts w) = cmd w"
  "config (fold (diagnose_Warn ctx) ts w) = config w"
  "open_listeners (fold (diagnose_Warn ctx) ts w) = open_listeners w"
  by (induction ts arbitrary: w; simp)+

lemma update_in_comp: "update_in p f (update_in p g s) = update_in p (f \<circ> g) s"
proof (induction p arbitrary: s)
  case Nil
  show ?case by simp
next
  case (Cons i p)
  show ?case using Cons.IH by (cases s) simp
qed

lemma update_at_comp: "update_at p f (update_at p g ss) = update_at p (f \<circ> g) ss"
  by (cases p) (simp_all add: update_in_comp)

lemma update_in_same: "(\<And>s. f s = s) \<Longrightarrow> update_in p f s = s"
proof (induction p arbitrary: s)
  case Nil
  then show ?case by simp
next
  case (Cons i p)
  then show ?case by (cases s) simp
qed

lemma update_at_same: "(\<And>s. f s = s) \<Longrightarrow> update_at p f ss = ss"
  by (cases p) (simp_all add: update_in_same)

lemma add_messages_Nil: "add_messages [] s = s"
  by (cases s) simp

lemma add_messages_append: "add_messages ms2 (add_messages ms1 s) = add_messages (ms1 @ ms2) s"
  by (cases s) simp

lemma spans_fold_Warn:
  "spans (fold (diagnose_Warn ctx) ts w) =
     update_at ctx (add_messages (map (Pair SevWarn) ts)) (spans w)"
proof (induction ts rule: rev_induct)
  case Nil
  show ?case by (simp add: update_at_same add_messages_Nil)
next
  case (snoc t ts)
  have "add_message (SevWarn, t) \<circ> add_messages (map (Pair SevWarn) ts)
          = add_messages (map (Pair SevWarn) (ts @ [t]))"
    by (rule ext) (simp add: add_message_def add_messages_append)
  then show ?case using snoc by (simp add: update_at_comp)
qed

lemma add_message_conv: "add_message m = add_messages [m]"
  by (rule ext) (simp add: add_message_def)

lemma add_messages_comp: "add_messages ms2 \<circ> add_messages ms1 = add_messages (ms1 @ ms2)"
  by (rule ext) (simp add: add_messages_append)

lemma bind_listeners_eq:
  "bind_listeners env lcs lns w =
     ((case bind_error env lcs of Some e \<Rightarrow> Inl e | None \<Rightarrow> Inr (lns @ bound_listeners env lcs)),
      w\<lparr>open_listeners := open_listeners w @ map Listener (bound_listeners env lcs),
        trace := trace w @ map Call_NewListener (bind_attempts env lcs)\<rparr>)"
proof (induction lcs arbitrary: lns w)
  case Nil
  show ?case by simp
next
  case (Cons lc lcs)
  show ?case
  proof (cases "NewListener env lc")
    case (Inl e)
    then show ?thesis by (simp add: emit_def)
  next
    case (Inr h)
    then show ?thesis by (simp add: Cons.IH emit_def split: option.split)
  qed
qed

lemma process_listener_disabled:
  "TLSDisable (Config ln) \<Longrightarrow>
   process_listener env ctx ln san w =
     (Inr san, diagnose_Warn ctx ''TLS is disabled in a Listener config stanza.'' w)"
  by (simp add: process_listener_def)

lemma listener_loop_eq:
  "listener_loop env ctx lns san w =
     ((case tls_error env lns of Some e \<Rightarrow> Inl e | None \<Rightarrow> Inr (san @ sanitized lns)),
      w\<lparr>spans := update_at ctx (add_messages (map (Pair SevWarn) (listener_warnings env lns))) (spans w),
        trace := trace w @ map Call_TLSConfig (tls_attempts env lns)\<rparr>)"
proof (induction lns arbitrary: san w)
  case Nil
  show ?case by (simp add: sanitized_def update_at_same add_messages_Nil)
next
  case (Cons ln lns)
  note comp = add_messages_comp add_message_conv
  show ?case
  proof (cases "TLSDisable (Config ln)")
    case True
    then show ?thesis
      by (simp add: process_listener_def Cons.IH sanitized_def diagnose_Warn_def
            update_at_comp comp split: option.split)
  next
    case False
    show ?thesis
    proof (cases "TLSConfig env (Config ln)")
      case (Some e)
      then show ?thesis using False
        by (simp add: process_listener_def emit_def diagnose_Warn_def comp
              update_at_same add_messages_Nil)
    next
      case None
      then show ?thesis using False
        by (simp add: process_listener_def Cons.IH sanitized_def emit_def diagnose_Warn_def
              update_at_comp comp split: option.split)
    qed
  qed
qed

lemma listenerCloseFunc_eq:
  "listenerCloseFunc lns w =
     w\<lparr>open_listeners := filter (\<lambda>h. h \<notin> Listener ` set lns) (open_listeners w),
       trace := trace w @ map (\<lambda>ln. Call_Close (Listener ln)) lns\<rparr>"
proof (induction lns arbitrary: w)
  case Nil
  show ?case by (simp add: listenerCloseFunc_def)
next
  case (Cons ln lns)
  have "listenerCloseFunc (ln # lns) w = listenerCloseFunc lns (Listener_Close (Listener ln) w)"
    by (simp add: listenerCloseFunc_def)
  also have "\<dots> = w\<lparr>open_listeners := filter (\<lambda>h. h \<notin> Listener ` set (ln # lns)) (open_listeners w),
       trace := trace w @ map (\<lambda>ln. Call_Close (Listener ln)) (ln # lns)\<rparr>"
    by (simp add: Cons.IH Listener_Close_def emit_def removeAll_filter_not_eq neq_commute)
  finally show ?case .
qed

lemma parseConfigCheck_fields:
  "fst (parseConfigCheck env ctx w) =
     (case parseConfig env (flagConfigs (cmd w)) of Inl e \<Rightarrow> Some e | Inr cfg \<Rightarrow> None)"
  "trace (snd (parseConfigCheck env ctx w)) = trace w @ [Call_parseConfig (flagConfigs (cmd w))]"
  "cmd (snd (parseConfigCheck env ctx w)) = cmd w"
  "open_listeners (snd (parseConfigCheck env ctx w)) = open_listeners w"
  "config (snd (parseConfigCheck env ctx w)) =
     (case parseConfig env (flagConfigs (cmd w)) of Inl e \<Rightarrow> config w | Inr cfg \<Rightarrow> Some cfg)"
  "spans (snd (parseConfigCheck env ctx w)) =
     (case parseConfig env (flagConfigs (cmd w)) of
        Inl e \<Rightarrow> spans w
      | Inr cfg \<Rightarrow> update_at ctx (add_messages (map (Pair SevWarn) (Validate env cfg))) (spans w))"
  by (simp_all add: parseConfigCheck_def Let_def spans_fold_Warn split: sum.split)

lemma cleanupGuard_Do_close:
  "cleanupGuard_Do (listenerCloseFunc lns) w =
     (if once_done (cleanupGuard (cmd w)) then w
      else w\<lparr>cmd := (cmd w)\<lparr>cleanupGuard := \<lparr>once_done = True\<rparr>\<rparr>,
             open_listeners := filter (\<lambda>h. h \<notin> Listener ` set lns) (open_listeners w),
             trace := trace w @ map (\<lambda>ln. Call_Close (Listener ln)) lns\<rparr>)"
  by (simp add: cleanupGuard_Do_def listenerCloseFunc_eq)

lemma initListenersCheck_fields:
  "fst (initListenersCheck env cfg dc ctx w) = listeners_error env cfg"
  "trace (snd (initListenersCheck env cfg dc ctx w)) =
     trace w @ listeners_events env cfg (once_done (cleanupGuard (cmd w)))"
  "config (snd (initListenersCheck env cfg dc ctx w)) = config w"
  "cmd (snd (initListenersCheck env cfg dc ctx w)) =
     (if bind_error env (Listeners cfg) = None
      then (cmd w)\<lparr>cleanupGuard := \<lparr>once_done = True\<rparr>\<rparr> else cmd w)"
  "open_listeners (snd (initListenersCheck env cfg dc ctx w)) =
     (if bind_error env (Listeners cfg) = None \<and> \<not> once_done (cleanupGuard (cmd w))
      then filter (\<lambda>h. h \<notin> Listener ` set (bound_listeners env (Listeners cfg))) (open_listeners w)
      else open_listeners w @ map Listener (bound_listeners env (Listeners cfg)))"
  "spans (snd (initListenersCheck env cfg dc ctx w)) =
     (if bind_error env (Listeners cfg) = None
      then update_at ctx (add_messages (map (Pair SevWarn)
             (listener_warnings env (bound_listeners env (Listeners cfg))))) (spans w)
      else spans w)"
  by (simp_all add: initListenersCheck_def InitListeners_def bind_listeners_eq listener_loop_eq
        cleanupGuard_Do_close listeners_error_def listeners_events_def close_events_def emit_def
      split: option.split)

lemma storageCheck_fields:
  "fst (storageCheck env cfg ctx w) = setupStorage env cfg"
  "trace (snd (storageCheck env cfg ctx w)) = trace w @ [Call_setupStorage]"
  "cmd (snd (storageCheck env cfg ctx w)) = cmd w"
  "config (snd (storageCheck env cfg ctx w)) = config w"
  "open_listeners (snd (storageCheck env cfg ctx w)) = open_listeners w"
  "spans (snd (storageCheck env cfg ctx w)) = spans w"
  by (simp_all add: storageCheck_def)

text \<open>With the name in the skip set, \<open>Test\<close> does not look at the function it is given.\<close>

lemma diagnose_Test_skipped:
  "name \<in> set skipSet \<Longrightarrow>
   diagnose_Test ctx name skipSet f w =
     (None,
      span_End (ctx @ [num_children ctx (spans w)])
        (span_SetStatus (ctx @ [num_children ctx (spans w)]) StSkip
           (snd (diagnose_StartSpan ctx name w))))"
  by (simp add: diagnose_Test_def diagnose_StartSpan_def)

lemma Test_fields:
  "fst (diagnose_Test ctx name [] f w) =
     fst (f (ctx @ [num_children ctx (spans w)]) (snd (diagnose_StartSpan ctx name w)))"
  "trace (snd (diagnose_Test ctx name [] f w)) =
     trace (snd (f (ctx @ [num_children ctx (spans w)]) (snd (diagnose_StartSpan ctx name w))))"
  "cmd (snd (diagnose_Test ctx name [] f w)) =
     cmd (snd (f (ctx @ [num_children ctx (spans w)]) (snd (diagnose_StartSpan ctx name w))))"
  "config (snd (diagnose_Test ctx name [] f w)) =
     config (snd (f (ctx @ [num_children ctx (spans w)]) (snd (diagnose_StartSpan ctx name w))))"
  "open_listeners (snd (diagnose_Test ctx name [] f w)) =
     open_listeners (snd (f (ctx @ [num_children ctx (spans w)]) (snd (diagnose_StartSpan ctx name w))))"
  by (simp_all add: diagnose_Test_def diagnose_StartSpan_def split: prod.split option.split)

lemma Test_parse_fields:
  "fst (diagnose_Test ctx name [] (parseConfigCheck env) w) =
     (case parseConfig env (flagConfigs (cmd w)) of Inl e \<Rightarrow> Some e | Inr cfg \<Rightarrow> None)"
  "trace (snd (diagnose_Test ctx name [] (parseConfigCheck env) w)) =
     trace w @ [Call_parseConfig (flagConfigs (cmd w))]"
  "cmd (snd (diagnose_Test ctx name [] (parseConfigCheck env) w)) = cmd w"
  "open_listeners (snd (diagnose_Test ctx name [] (parseConfigCheck env) w)) = open_listeners w"
  "config (snd (diagnose_Test ctx name [] (parseConfigCheck env) w)) =
     (case parseConfig env (flagConfigs (cmd w)) of Inl e \<Rightarrow> config w | Inr cfg \<Rightarrow> Some cfg)"
  by (simp_all add: Test_fields parseConfigCheck_fields split: sum.split)

lemma Test_listeners_fields:
  "fst (diagnose_Test ctx name [] (initListenersCheck env cfg dc) w) = listeners_error env cfg"
  "trace (snd (diagnose_Test ctx name [] (initListenersCheck env cfg dc) w)) =
     trace w @ listeners_events env cfg (once_done (cleanupGuard (cmd w)))"
  "config (snd (diagnose_Test ctx name [] (initListenersCheck env cfg dc) w)) = config w"
  "cmd (snd (diagnose_Test ctx name [] (initListenersCheck env cfg dc) w)) =
     (if bind_error env (Listeners cfg) = None
      then (cmd w)\<lparr>cleanupGuard := \<lparr>once_done = True\<rparr>\<rparr> else cmd w)"
  "open_listeners (snd (diagnose_Test ctx name [] (initListenersCheck env cfg dc) w)) =
     (if bind_error env (Listeners cfg) = None \<and> \<not> once_done (cleanupGuard (cmd w))
      then filter (\<lambda>h. h \<notin> Listener ` set (bound_listeners env (Listeners cfg))) (open_listeners w)
      else open_listeners w @ map Listener (bound_listeners env (Listeners cfg)))"
  by (simp_all add: Test_fields initListenersCheck_fields)

lemma Test_storage_fields:
  "fst (diagnose_Test ctx name [] (storageCheck env cfg) w) = setupStorage env cfg"
  "trace (snd (diagnose_Test ctx name [] (storageCheck env cfg) w)) = trace w @ [Call_setupStorage]"
  "cmd (snd (diagnose_Test ctx name [] (storageCheck env cfg) w)) = cmd w"
  "config (snd (diagnose_Test ctx name [] (storageCheck env cfg) w)) = config w"
  "open_listeners (snd (diagnose_Test ctx name [] (storageCheck env cfg) w)) = open_listeners w"
  by (simp_all add: Test_fields storageCheck_fields)

lemmas Test_check_fields = Test_parse_fields Test_listeners_fields Test_storage_fields

lemma run_checks_fst:
  "fst (run_checks env ctx w) =
     (case parseConfig env (flagConfigs (cmd w)) of
        Inl e \<Rightarrow> Exit 1
      | Inr cfg \<Rightarrow>
          if listeners_error env cfg = None \<and> setupStorage env cfg = None then Exit 0 else Exit 1)"
  by (simp add: run_checks_def Let_def case_prod_beta Test_check_fields
      split: option.split sum.split)

lemma run_checks_trace:
  "trace (snd (run_checks env ctx w)) = trace w @ check_events env w"
  by (simp add: run_checks_def Let_def case_prod_beta Test_check_fields check_events_def
      split: option.split sum.split)

lemma run_checks_cmd:
  "cmd (snd (run_checks env ctx w)) =
     (case parseConfig env (flagConfigs (cmd w)) of
        Inl e \<Rightarrow> cmd w
      | Inr cfg \<Rightarrow>
          if bind_error env (Listeners cfg) = None
          then (cmd w)\<lparr>cleanupGuard := \<lparr>once_done = True\<rparr>\<rparr> else cmd w)"
  by (simp add: run_checks_def Let_def case_prod_beta Test_check_fields
      split: option.split sum.split)

lemma run_checks_open:
  "open_listeners (snd (run_checks env ctx w)) =
     (case parseConfig env (flagConfigs (cmd w)) of
        Inl e \<Rightarrow> open_listeners w
      | Inr cfg \<Rightarrow>
          if bind_error env (Listeners cfg) = None \<and> \<not> once_done (cleanupGuard (cmd w))
          then filter (\<lambda>h. h \<notin> Listener ` set (bound_listeners env (Listeners cfg))) (open_listeners w)
          else open_listeners w @ map Listener (bound_listeners env (Listeners cfg)))"
  by (simp add: run_checks_def Let_def case_prod_beta Test_check_fields
      split: option.split sum.split)

lemma map_update_same: "i < length xs \<Longrightarrow> f x = f (xs ! i) \<Longrightarrow> map f (xs[i := x]) = map f xs"
  by (simp add: map_update list_update_same_conv)

lemma names_of_absorb [simp]: "names_of (absorb s) = names_of s"
  by (cases s) simp

lemma names_of_add_messages [simp]: "names_of (add_messages ms s) = names_of s"
  by (cases s) simp

lemma names_of_add_message [simp]: "names_of (add_message m s) = names_of s"
  by (simp add: add_message_def)

lemma names_of_set_status [simp]: "names_of (set_status st s) = names_of s"
  by (cases s) simp

lemma names_of_update_in:
  "(\<And>s. names_of (f s) = names_of s) \<Longrightarrow> names_of (update_in p f s) = names_of s"
proof (induction p arbitrary: s)
  case Nil
  then show ?case by simp
next
  case (Cons i p)
  obtain n st ms ks e where s: "s = Span n st ms ks e" by (cases s)
  show ?case
  proof (cases "i < length ks")
    case True
    have "names_of (update_in p f (ks ! i)) = names_of (ks ! i)"
      using Cons.prems by (rule Cons.IH)
    then have "map names_of (ks[i := update_in p f (ks ! i)]) = map names_of ks"
      using True by (simp add: map_update_same)
    then show ?thesis using s True by simp
  next
    case False
    then show ?thesis using s by simp
  qed
qed

lemma all_names_update_at:
  "(\<And>s. names_of (f s) = names_of s) \<Longrightarrow> all_names (update_at p f ss) = all_names ss"
  by (cases p) (simp_all add: all_names_def map_update_same names_of_update_in)

lemma names_of_end_in: "names_of (end_in p s) = names_of s"
proof (induction p arbitrary: s)
  case Nil
  show ?case by (cases s) simp
next
  case (Cons i p)
  obtain n st ms ks e where s: "s = Span n st ms ks e" by (cases s)
  show ?case
  proof (cases "i < length ks")
    case True
    have "map names_of (ks[i := end_in p (ks ! i)]) = map names_of ks"
      using True by (simp add: map_update_same Cons.IH)
    then show ?thesis using s True by simp
  next
    case False
    then show ?thesis using s by simp
  qed
qed

lemma all_names_end_at: "all_names (end_at p ss) = all_names ss"
  by (cases p) (simp_all add: all_names_def map_update_same names_of_end_in)

lemma names_of_close_all: "names_of (close_all s) = names_of s"
proof (induction s)
  case (Span n st ms ks e)
  show ?case by (simp add: Span.IH cong: map_cong)
qed

lemma all_names_close_all: "all_names (map close_all ss) = all_names ss"
  by (simp add: all_names_def names_of_close_all cong: map_cong)

lemma length_update_at [simp]: "length (update_at p f ss) = length ss"
  by (cases p) simp_all

lemma length_end_at [simp]: "length (end_at p ss) = length ss"
  by (cases p) simp_all

lemma add_child_root:
  "length ss = Suc 0 \<Longrightarrow>
   all_names (add_child [0] c ss) = all_names ss @ names_of c \<and>
   length (add_child [0] c ss) = Suc 0 \<and>
   num_children [0] (add_child [0] c ss) = Suc (num_children [0] ss)"
proof -
  assume "length ss = Suc 0"
  then obtain r where ss: "ss = [r]" by (cases ss) auto
  obtain n st ms ks e where r: "r = Span n st ms ks e" by (cases r)
  show ?thesis by (simp add: ss r all_names_def)
qed

lemma Test_spans:
  "spans (snd (diagnose_Test ctx name [] f w)) =
     (case f (ctx @ [num_children ctx (spans w)]) (snd (diagnose_StartSpan ctx name w)) of
        (None, w2) \<Rightarrow> end_at (ctx @ [num_children ctx (spans w)]) (spans w2)
      | (Some e, w2) \<Rightarrow>
          end_at (ctx @ [num_children ctx (spans w)])
            (update_at (ctx @ [num_children ctx (spans w)]) (add_message (SevError, e))
               (update_at (ctx @ [num_children ctx (spans w)]) (set_status StError) (spans w2))))"
  by (simp add: diagnose_Test_def diagnose_StartSpan_def split: prod.split option.split)

lemma check_spans_shape:
  "\<exists>g. (\<forall>s. names_of (g s) = names_of s) \<and>
       spans (snd (parseConfigCheck env ctx w)) = update_at ctx g (spans w)"
  "\<exists>g. (\<forall>s. names_of (g s) = names_of s) \<and>
       spans (snd (initListenersCheck env cfg dc ctx w)) = update_at ctx g (spans w)"
  "\<exists>g. (\<forall>s. names_of (g s) = names_of s) \<and>
       spans (snd (storageCheck env cfg ctx w)) = update_at ctx g (spans w)"
proof -
  have id: "\<And>ss. update_at ctx (\<lambda>s. s) ss = ss" by (simp add: update_at_same)
  show "\<exists>g. (\<forall>s. names_of (g s) = names_of s) \<and>
       spans (snd (parseConfigCheck env ctx w)) = update_at ctx g (spans w)"
  proof (cases "parseConfig env (flagConfigs (cmd w))")
    case (Inl e)
    then show ?thesis using id by (intro exI [of _ "\<lambda>s. s"]) (simp add: parseConfigCheck_fields)
  next
    case (Inr c)
    then show ?thesis
      by (intro exI [of _ "add_messages (map (Pair SevWarn) (Validate env c))"])
         (simp add: parseConfigCheck_fields)
  qed
  show "\<exists>g. (\<forall>s. names_of (g s) = names_of s) \<and>
       spans (snd (initListenersCheck env cfg dc ctx w)) = update_at ctx g (spans w)"
  proof (cases "bind_error env (Listeners cfg)")
    case (Some e)
    then show ?thesis using id by (intro exI [of _ "\<lambda>s. s"]) (simp add: initListenersCheck_fields)
  next
    case None
    then show ?thesis
      by (intro exI [of _ "add_messages (map (Pair SevWarn)
             (listener_warnings env (bound_listeners env (Listeners cfg))))"])
         (simp add: initListenersCheck_fields)
  qed
  show "\<exists>g. (\<forall>s. names_of (g s) = names_of s) \<and>
       spans (snd (storageCheck env cfg ctx w)) = update_at ctx g (spans w)"
    using id by (intro exI [of _ "\<lambda>s. s"]) (simp add: storageCheck_fields)
qed

lemma Test_names:
  assumes f: "\<And>ctx w. \<exists>g. (\<forall>s. names_of (g s) = names_of s) \<and>
                 spans (snd (f ctx w)) = update_at ctx g (spans w)"
    and len: "length (spans w) = Suc 0"
  shows "all_names (spans (snd (diagnose_Test [0] name [] f w))) = all_names (spans w) @ [name]"
    and "length (spans (snd (diagnose_Test [0] name [] f w))) = Suc 0"
proof -
  define ctx' where "ctx' = [0] @ [num_children [0] (spans w)]"
  define w1 where "w1 = snd (diagnose_StartSpan [0] name w)"
  obtain g where g: "\<And>s. names_of (g s) = names_of s"
    and gs: "spans (snd (f ctx' w1)) = update_at ctx' g (spans w1)"
    using f [of ctx' w1] by blast
  have w1: "all_names (spans w1) = all_names (spans w) @ [name]" "length (spans w1) = Suc 0"
    using add_child_root [OF len, of "Span name StOk [] [] False"] by (simp_all add: w1_def)
  have w2: "all_names (spans (snd (f ctx' w1))) = all_names (spans w) @ [name]"
    "length (spans (snd (f ctx' w1))) = Suc 0"
    using w1 g by (simp_all add: gs all_names_update_at)
  obtain r w2 where fr: "f ctx' w1 = (r, w2)" by (cases "f ctx' w1")
  have sp: "spans (snd (diagnose_Test [0] name [] f w)) =
     (case r of None \<Rightarrow> end_at ctx' (spans w2)
      | Some e \<Rightarrow> end_at ctx' (update_at ctx' (add_message (SevError, e))
                     (update_at ctx' (set_status StError) (spans w2))))"
    using fr by (simp add: Test_spans ctx'_def w1_def split: option.split)
  show "all_names (spans (snd (diagnose_Test [0] name [] f w))) = all_names (spans w) @ [name]"
    using w2 fr by (simp add: sp all_names_end_at all_names_update_at split: option.split)
  show "length (spans (snd (diagnose_Test [0] name [] f w))) = Suc 0"
    using w2 fr by (simp add: sp split: option.split)
qed

lemmas Test_names_parse = Test_names [where f = "parseConfigCheck env" for env, OF check_spans_shape(1)]
lemmas Test_names_listeners =
  Test_names [where f = "initListenersCheck env cfg dc" for env cfg dc, OF check_spans_shape(2)]
lemmas Test_names_storage =
  Test_names [where f = "storageCheck env cfg" for env cfg, OF check_spans_shape(3)]

lemma run_checks_names:
  assumes "length (spans w) = Suc 0"
  shows "all_names (spans (snd (run_checks env [0] w))) = all_names (spans w) @ started_checks env w"
  using assms
  by (simp add: run_checks_def Let_def case_prod_beta Test_check_fields Test_names_parse
        Test_names_listeners Test_names_storage started_checks_def all_names_update_at
      del: update_at.simps split: option.split sum.split)

lemma run_deferred_fields:
  "spans (run_deferred ctx w) = map close_all (end_at ctx (spans w))"
  "trace (run_deferred ctx w) =
     trace w @ [Diag_Shutdown, Stdout_Write (report_of (map close_all (end_at ctx (spans w))))]"
  "cmd (run_deferred ctx w) = cmd w"
  "config (run_deferred ctx w) = config w"
  "open_listeners (run_deferred ctx w) = open_listeners w"
  by (simp_all add: run_deferred_def diagnose_Shutdown_def Report_Write_def Let_def)

lemma Init_fields:
  "spans (diagnose_Init w) = []" "trace (diagnose_Init w) = trace w @ [Diag_Init]"
  "cmd (diagnose_Init w) = cmd w" "config (diagnose_Init w) = config w"
  "open_listeners (diagnose_Init w) = open_listeners w"
  by (simp_all add: diagnose_Init_def)

lemma Run_unfold:
  "flagConfigs (cmd w) \<noteq> [] \<Longrightarrow>
   RunWithParsedFlags env w =
     (fst (run_checks env [0] (snd (diagnose_StartSpan [] ''initialization'' (diagnose_Init w)))),
      run_deferred [0]
        (snd (run_checks env [0] (snd (diagnose_StartSpan [] ''initialization'' (diagnose_Init w))))))"
  by (simp add: RunWithParsedFlags_def diagnose_StartSpan_def Init_fields case_prod_beta)

lemma Run_no_config:
  "flagConfigs (cmd w) = [] \<Longrightarrow>
   RunWithParsedFlags env w =
     (Exit 1, emit (UI_Error ''Must specify a configuration file using -config.'') w)"
  by (simp add: RunWithParsedFlags_def)

lemma check_events_cong:
  "check_events env (snd (diagnose_StartSpan c n (diagnose_Init w))) = check_events env w"
  by (simp add: check_events_def Init_fields split: sum.split)

lemma started_checks_cong:
  "started_checks env (snd (diagnose_StartSpan c n (diagnose_Init w))) = started_checks env w"
  by (simp add: started_checks_def Init_fields split: sum.split)

lemma Run_fst:
  "flagConfigs (cmd w) \<noteq> [] \<Longrightarrow>
   fst (RunWithParsedFlags env w) =
     (case parseConfig env (flagConfigs (cmd w)) of
        Inl e \<Rightarrow> Exit 1
      | Inr cfg \<Rightarrow>
          if listeners_error env cfg = None \<and> setupStorage env cfg = None then Exit 0 else Exit 1)"
  by (simp add: Run_unfold run_checks_fst Init_fields split: sum.split)

lemma Run_names:
  "flagConfigs (cmd w) \<noteq> [] \<Longrightarrow>
   all_names (spans (snd (RunWithParsedFlags env w))) = ''initialization'' # started_checks env w"
proof -
  assume c: "flagConfigs (cmd w) \<noteq> []"
  define w1 where "w1 = snd (diagnose_StartSpan [] ''initialization'' (diagnose_Init w))"
  have w1: "length (spans w1) = Suc 0" "all_names (spans w1) = [''initialization'']"
    by (simp_all add: w1_def Init_fields all_names_def)
  have "all_names (spans (snd (RunWithParsedFlags env w)))
          = all_names (spans (snd (run_checks env [0] w1)))"
    using c by (simp add: Run_unfold run_deferred_fields all_names_close_all all_names_end_at
                  w1_def del: end_at.simps)
  also have "\<dots> = ''initialization'' # started_checks env w"
    using run_checks_names [OF w1(1), of env] w1(2) by (simp add: w1_def started_checks_cong)
  finally show ?thesis .
qed

lemma Run_trace:
  "flagConfigs (cmd w) \<noteq> [] \<Longrightarrow>
   trace (snd (RunWithParsedFlags env w)) =
     trace w @ Diag_Init # check_events env w
       @ [Diag_Shutdown, Stdout_Write (report_of (spans (snd (RunWithParsedFlags env w))))]"
  by (simp add: Run_unfold run_deferred_fields run_checks_trace Init_fields check_events_cong)

lemma Run_cmd:
  "flagConfigs (cmd w) \<noteq> [] \<Longrightarrow>
   cmd (snd (RunWithParsedFlags env w)) =
     (case parseConfig env (flagConfigs (cmd w)) of
        Inl e \<Rightarrow> cmd w
      | Inr cfg \<Rightarrow>
          if bind_error env (Listeners cfg) = None
          then (cmd w)\<lparr>cleanupGuard := \<lparr>once_done = True\<rparr>\<rparr> else cmd w)"
  by (simp add: Run_unfold run_deferred_fields run_checks_cmd Init_fields split: sum.split)

lemma Run_open:
  "flagConfigs (cmd w) \<noteq> [] \<Longrightarrow>
   open_listeners (snd (RunWithParsedFlags env w)) =
     (case parseConfig env (flagConfigs (cmd w)) of
        Inl e \<Rightarrow> open_listeners w
      | Inr cfg \<Rightarrow>
          if bind_error env (Listeners cfg) = None \<and> \<not> once_done (cleanupGuard (cmd w))
          then filter (\<lambda>h. h \<notin> Listener ` set (bound_listeners env (Listeners cfg))) (open_listeners w)
          else open_listeners w @ map Listener (bound_listeners env (Listeners cfg)))"
  by (simp add: Run_unfold run_deferred_fields run_checks_open Init_fields split: sum.split)

subsection \<open>Views of the log\<close>

lemma closed_handles_simps [simp]:
  "closed_handles [] = []"
  "closed_handles (e # es) = closed e @ closed_handles es"
  "closed_handles (xs @ ys) = closed_handles xs @ closed_handles ys"
  by (simp_all add: closed_handles_def)

lemma reports_written_simps [simp]:
  "reports_written [] = []"
  "reports_written (e # es) = written e @ reports_written es"
  "reports_written (xs @ ys) = reports_written xs @ reports_written ys"
  by (simp_all add: reports_written_def)

lemma closed_handles_maps [simp]:
  "closed_handles (map Call_NewListener lcs) = []"
  "closed_handles (map Call_TLSConfig lcs) = []"
  "closed_handles (map (\<lambda>ln. Call_Close (Listener ln)) lns) = map Listener lns"
proof -
  show "closed_handles (map Call_NewListener lcs) = []" "closed_handles (map Call_TLSConfig lcs) = []"
    by (simp_all add: closed_handles_def)
  show "closed_handles (map (\<lambda>ln. Call_Close (Listener ln)) lns) = map Listener lns"
    by (induction lns) simp_all
qed

lemma reports_written_maps [simp]:
  "reports_written (map Call_NewListener lcs) = []"
  "reports_written (map Call_TLSConfig lcs) = []"
  "reports_written (map (\<lambda>ln. Call_Close (Listener ln)) lns) = []"
  by (simp_all add: reports_written_def)

lemma check_entry_maps [simp]:
  "filter check_entry (map Call_NewListener lcs) = []"
  "filter check_entry (map Call_TLSConfig lcs) = []"
  "filter check_entry (map (\<lambda>ln. Call_Close (Listener ln)) lns) = []"
  by (simp_all add: filter_empty_conv)

lemma listeners_events_views:
  "closed_handles (listeners_events env cfg released) =
     (if bind_error env (Listeners cfg) = None \<and> \<not> released
      then map Listener (bound_listeners env (Listeners cfg)) else [])"
  "reports_written (listeners_events env cfg released) = []"
  "filter check_entry (listeners_events env cfg released) = [Call_InitListeners]"
  "Diag_Shutdown \<notin> set (listeners_events env cfg released)"
  "Call_setupStorage \<notin> set (listeners_events env cfg released)"
  by (auto simp add: listeners_events_def close_events_def split: option.split)

lemma check_events_views:
  "closed_handles (check_events env w) =
     (case parseConfig env (flagConfigs (cmd w)) of
        Inl e \<Rightarrow> []
      | Inr cfg \<Rightarrow>
          if bind_error env (Listeners cfg) = None \<and> \<not> once_done (cleanupGuard (cmd w))
          then map Listener (bound_listeners env (Listeners cfg)) else [])"
  "reports_written (check_events env w) = []"
  "Diag_Shutdown \<notin> set (check_events env w)"
  "filter check_entry (check_events env w) =
     Call_parseConfig (flagConfigs (cmd w))
     # (case parseConfig env (flagConfigs (cmd w)) of
          Inl e \<Rightarrow> []
        | Inr cfg \<Rightarrow>
            Call_InitListeners # (if listeners_error env cfg = None then [Call_setupStorage] else []))"
  by (simp_all add: check_events_def listeners_events_views split: sum.split)

subsection \<open>The span a context carries, and counting messages\<close>

lemma span_children_absorb [simp]: "span_children (absorb s) = span_children s"
  by (cases s) simp

lemma get_span_in_update_in:
  "get_span_in p (update_in p f s) = map_option f (get_span_in p s)"
proof (induction p arbitrary: s)
  case Nil
  show ?case by simp
next
  case (Cons i p)
  show ?case using Cons.IH by (cases s) simp
qed

lemma get_span_update_at: "get_span p (update_at p f ss) = map_option f (get_span p ss)"
  by (cases p) (simp_all add: get_span_in_update_in)

lemma get_span_in_end_in:
  "get_span_in p (end_in p s) = map_option (end_in []) (get_span_in p s)"
proof (induction p arbitrary: s)
  case Nil
  show ?case by simp
next
  case (Cons i p)
  show ?case using Cons.IH by (cases s) simp
qed

lemma get_span_end_at: "get_span p (end_at p ss) = map_option (end_in []) (get_span p ss)"
  by (cases p) (simp_all add: get_span_in_end_in)

lemma get_span_in_add_child_in:
  "get_span_in p s \<noteq> None \<Longrightarrow>
   get_span_in (p @ [num_children_in p s]) (add_child_in p c s) = Some c"
proof (induction p arbitrary: s)
  case Nil
  show ?case by (cases s) simp
next
  case (Cons i p)
  obtain n st ms ks e where s: "s = Span n st ms ks e" by (cases s)
  from Cons.prems s have i: "i < length ks" and g: "get_span_in p (ks ! i) \<noteq> None"
    by (simp_all split: if_splits)
  show ?case using Cons.IH [OF g] i by (simp add: s)
qed

lemma get_span_add_child:
  "p = [] \<or> get_span p ss \<noteq> None \<Longrightarrow>
   get_span (p @ [num_children p ss]) (add_child p c ss) = Some c"
proof (cases p)
  case Nil
  then show ?thesis by simp
next
  case (Cons i q)
  assume "p = [] \<or> get_span p ss \<noteq> None"
  with Cons have i: "i < length ss" and g: "get_span_in q (ss ! i) \<noteq> None"
    by (simp_all split: if_splits)
  show ?thesis using get_span_in_add_child_in [OF g] i by (simp add: Cons)
qed

lemma sum_list_map_update:
  "i < length xs \<Longrightarrow> f x = f (xs ! i) + d \<Longrightarrow>
   sum_list (map f (xs[i := x])) = sum_list (map f xs) + (d::nat)"
proof (induction xs arbitrary: i)
  case Nil
  then show ?case by simp
next
  case (Cons y ys)
  then show ?case by (cases i) simp_all
qed

lemma count_sev_update_in:
  "get_span_in p s \<noteq> None \<Longrightarrow>
   count_sev v (update_in p (add_message m) s) = count_sev v s + (if fst m = v then 1 else 0)"
proof (induction p arbitrary: s)
  case Nil
  show ?case by (cases s) (simp add: add_message_def)
next
  case (Cons i p)
  obtain n st ms ks e where s: "s = Span n st ms ks e" by (cases s)
  from Cons.prems s have i: "i < length ks" and g: "get_span_in p (ks ! i) \<noteq> None"
    by (simp_all split: if_splits)
  have "sum_list (map (count_sev v) (ks[i := update_in p (add_message m) (ks ! i)])) =
          sum_list (map (count_sev v) ks) + (if fst m = v then 1 else 0)"
    using i Cons.IH [OF g] by (rule sum_list_map_update)
  then show ?case using i by (simp add: s)
qed

lemma count_messages_update_at:
  "get_span p ss \<noteq> None \<Longrightarrow>
   count_messages v (update_at p (add_message m) ss) =
     count_messages v ss + (if fst m = v then 1 else 0)"
proof (cases p)
  case Nil
  assume "get_span p ss \<noteq> None"
  with Nil show ?thesis by simp
next
  case (Cons i q)
  assume "get_span p ss \<noteq> None"
  with Cons have i: "i < length ss" and g: "get_span_in q (ss ! i) \<noteq> None"
    by (simp_all split: if_splits)
  have "sum_list (map (count_sev v) (ss[i := update_in q (add_message m) (ss ! i)])) =
          sum_list (map (count_sev v) ss) + (if fst m = v then 1 else 0)"
    using i count_sev_update_in [OF g] by (rule sum_list_map_update)
  then show ?thesis using i by (simp add: Cons count_messages_def)
qed

lemma ListenerChecks_event:
  "Call_ListenerChecks san \<in> set (listeners_events env cfg released) \<Longrightarrow>
   san = sanitized (bound_listeners env (Listeners cfg))"
  by (auto simp add: listeners_events_def close_events_def split: option.splits if_splits)

lemma Close_event:
  "bind_error env (Listeners cfg) = None \<Longrightarrow> ln \<in> set (bound_listeners env (Listeners cfg)) \<Longrightarrow>
   Call_Close (Listener ln) \<in> set (listeners_events env cfg False)"
  by (auto simp add: listeners_events_def close_events_def split: option.splits)

subsection \<open>Messages of the root span\<close>

lemma span_messages_absorb [simp]: "span_messages (absorb s) = span_messages s"
  by (cases s) simp

lemma span_messages_update_in: "span_messages (update_in (i # p) f s) = span_messages s"
  by (cases s) simp

lemma span_messages_end_in: "span_messages (end_in p s) = span_messages s"
  by (cases p; cases s) simp_all

lemma span_messages_add_child_in: "span_messages (add_child_in p c s) = span_messages s"
  by (cases p; cases s) simp_all

lemma span_messages_close_all: "span_messages (close_all s) = span_messages s"
  by (cases s) simp

lemma root_messages_update_at:
  "map span_messages (update_at (i # j # p) f ss) = map span_messages ss"
  by (simp add: map_update_same span_messages_update_in)

lemma root_messages_end_at: "map span_messages (end_at p ss) = map span_messages ss"
  by (cases p) (simp_all add: map_update_same span_messages_end_in)

lemma root_messages_add_child:
  "map span_messages (add_child (i # p) c ss) = map span_messages ss"
  by (simp add: map_update_same span_messages_add_child_in)

lemma root_messages_close_all:
  "map span_messages (map close_all ss) = map span_messages ss"
  by (simp add: span_messages_close_all)

lemma Test_root_messages:
  assumes f: "\<And>ctx w. \<exists>g. (\<forall>s. names_of (g s) = names_of s) \<and>
                 spans (snd (f ctx w)) = update_at ctx g (spans w)"
  shows "map span_messages (spans (snd (diagnose_Test [0] name [] f w))) =
           map span_messages (spans w)"
proof -
  define k where "k = num_children [0] (spans w)"
  define w1 where "w1 = snd (diagnose_StartSpan [0] name w)"
  obtain g where gs: "spans (snd (f [0, k] w1)) = update_at [0, k] g (spans w1)"
    using f [of "[0, k]" w1] by blast
  have w1: "map span_messages (spans w1) = map span_messages (spans w)"
    by (simp add: w1_def root_messages_add_child del: add_child.simps)
  have w2: "map span_messages (spans (snd (f [0, k] w1))) = map span_messages (spans w)"
    by (simp add: gs root_messages_update_at w1 del: update_at.simps)
  obtain r w2 where fr: "f [0, k] w1 = (r, w2)" by (cases "f [0, k] w1")
  have sp: "spans (snd (diagnose_Test [0] name [] f w)) =
     (case r of None \<Rightarrow> end_at [0, k] (spans w2)
      | Some e \<Rightarrow> end_at [0, k] (update_at [0, k] (add_message (SevError, e))
                     (update_at [0, k] (set_status StError) (spans w2))))"
    using fr by (simp add: Test_spans k_def w1_def split: option.split del: end_at.simps update_at.simps)
  show ?thesis using w2 fr
    by (simp add: sp root_messages_end_at root_messages_update_at split: option.split
          del: end_at.simps update_at.simps)
qed

lemmas Test_root_messages_checks =
  Test_root_messages [where f = "parseConfigCheck env" for env, OF check_spans_shape(1)]
  Test_root_messages [where f = "initListenersCheck env cfg dc" for env cfg dc, OF check_spans_shape(2)]
  Test_root_messages [where f = "storageCheck env cfg" for env cfg, OF check_spans_shape(3)]

lemma run_checks_root_messages:
  "map span_messages (spans (snd (run_checks env [0] w))) =
     map span_messages (update_at [0] (add_message (SevError, ''nope, didn't work'')) (spans w))"
  by (simp add: run_checks_def Let_def case_prod_beta Test_check_fields Test_root_messages_checks
      del: update_at.simps split: option.split sum.split)

lemma Run_root_messages:
  assumes "flagConfigs (cmd w) \<noteq> []"
  shows "map span_messages (spans (snd (RunWithParsedFlags env w))) =
           [[(SevError, ''nope, didn't work'')]]"
proof -
  define w1 where "w1 = snd (diagnose_StartSpan [] ''initialization'' (diagnose_Init w))"
  have w1: "spans w1 = [Span ''initialization'' StOk [] [] False]"
    by (simp add: w1_def Init_fields)
  have "map span_messages (spans (snd (RunWithParsedFlags env w)))
          = map span_messages (end_at [0] (spans (snd (run_checks env [0] w1))))"
    by (simp add: Run_unfold [OF assms] run_deferred_fields root_messages_close_all w1_def
          del: end_at.simps map_map)
  also have "\<dots> = map span_messages (spans (snd (run_checks env [0] w1)))"
    by (rule root_messages_end_at)
  also have "\<dots> = [[(SevError, ''nope, didn't work'')]]"
    by (simp add: run_checks_root_messages w1 add_message_def)
  finally show ?thesis .
qed

section \<open>The concrete runs\<close>

lemma ex_world_fields:
  "flagConfigs (cmd (ex_world sk)) = [''config.hcl'']"
  "once_done (cleanupGuard (cmd (ex_world sk))) = False"
  "open_listeners (ex_world sk) = []" "trace (ex_world sk) = []"
  "flagDebug (cmd (ex_world sk)) = False" "flagSkips (cmd (ex_world sk)) = sk"
  by (simp_all add: ex_world_def)

lemma ex_env_fields:
  "parseConfig ex_env paths = Inr ex_config"
  "Validate ex_env cfg = [''unknown or unsupported field x'']"
  "setupStorage ex_env cfg = None"
  "FullVersionNumber ex_env = ''Vault v1.8.0''"
  "bind_error ex_env (Listeners ex_config) = None"
  "bound_listeners ex_env (Listeners ex_config) =
     [\<lparr>Listener = 3, Config = ex_tls\<rparr>, \<lparr>Listener = 4, Config = ex_plain\<rparr>]"
  "bind_attempts ex_env (Listeners ex_config) = [ex_tls, ex_plain]"
  by (simp_all add: ex_env_def ex_config_def ex_tls_def ex_plain_def)

lemma ex_ok:
  "parseConfig ex_env paths = Inr ex_config"
  "bind_error ex_env (Listeners ex_config) = None"
  "tls_error ex_env (bound_listeners ex_env (Listeners ex_config)) = None"
  "ListenerChecks ex_env lns = None"
  "setupStorage ex_env cfg = None"
  "listeners_error ex_env ex_config = None"
proof -
  show "parseConfig ex_env paths = Inr ex_config" "bind_error ex_env (Listeners ex_config) = None"
    "ListenerChecks ex_env lns = None" "setupStorage ex_env cfg = None"
    by (simp_all add: ex_env_def ex_config_def)
  show "tls_error ex_env (bound_listeners ex_env (Listeners ex_config)) = None"
    by (simp add: ex_env_def ex_config_def ex_tls_def ex_plain_def)
  show "listeners_error ex_env ex_config = None"
    by (simp add: listeners_error_def ex_env_def ex_config_def ex_tls_def ex_plain_def)
qed

lemma ex_parse_fails_fields:
  "parseConfig ex_env_parse_fails paths = Inl ''invalid syntax''"
  "FullVersionNumber ex_env_parse_fails = ''Vault v1.8.0''"
  by (simp_all add: ex_env_parse_fails_def ex_env_def)

lemma ex_bind_fails_fields:
  "parseConfig ex_env_bind_fails paths = Inr ex_config"
  "FullVersionNumber ex_env_bind_fails = ''Vault v1.8.0''"
  "bind_error ex_env_bind_fails (Listeners ex_config) = Some ''bind: address already in use''"
  "bound_listeners ex_env_bind_fails (Listeners ex_config) = [\<lparr>Listener = 3, Config = ex_tls\<rparr>]"
  "bind_attempts ex_env_bind_fails (Listeners ex_config) = [ex_tls, ex_plain]"
  "listeners_error ex_env_bind_fails ex_config = Some ''bind: address already in use''"
  by (simp_all add: listeners_error_def ex_env_bind_fails_def ex_env_def ex_config_def ex_tls_def ex_plain_def)

lemma ex_released_fields:
  "flagConfigs (cmd ex_world_released) = [''config.hcl'']"
  "once_done (cleanupGuard (cmd ex_world_released)) = True"
  "open_listeners ex_world_released = []" "trace ex_world_released = []"
  by (simp_all add: ex_world_released_def)

lemma ex_tls_fails_fields:
  "parseConfig ex_env_tls_fails paths = Inr ex_config"
  "bind_error ex_env_tls_fails (Listeners ex_config) = None"
  "bound_listeners ex_env_tls_fails (Listeners ex_config) =
     [\<lparr>Listener = 3, Config = ex_tls\<rparr>, \<lparr>Listener = 4, Config = ex_plain\<rparr>]"
  "listeners_error ex_env_tls_fails ex_config =
     Some ''error creating TLS Configuration out of config file: open cert.pem: no such file''"
  by (simp_all add: listeners_error_def ex_env_tls_fails_def ex_env_def ex_config_def ex_tls_def ex_plain_def)

lemma ex_started_fields:
  "flagConfigs (cmd ex_world_started) = [''config.hcl'']"
  "once_done (cleanupGuard (cmd ex_world_started)) = False"
  "open_listeners ex_world_started = []" "trace ex_world_started = []"
  "spans ex_world_started = [Span ''initialization'' StOk [] [] False]"
  by (simp_all add: ex_world_started_def)

lemma ex_storage_fails_fields:
  "parseConfig ex_env_storage_fails paths = Inr ex_config"
  "listeners_error ex_env_storage_fails ex_config = None"
  "setupStorage ex_env_storage_fails cfg = Some ''storage unreachable''"
  by (simp_all add: listeners_error_def sanitized_def ex_env_storage_fails_def ex_env_def
        ex_config_def ex_tls_def ex_plain_def)

lemma listeners_error_None:
  "listeners_error env cfg = None \<longleftrightarrow>
     bind_error env (Listeners cfg) = None
     \<and> tls_error env (bound_listeners env (Listeners cfg)) = None
     \<and> ListenerChecks env (sanitized (bound_listeners env (Listeners cfg))) = None"
  by (simp add: listeners_error_def split: option.split)

section \<open>Exit code\<close>

text \<open>
  The exit code as a function of the collaborators' answers alone: the command returns 0
  exactly when a configuration path was given, parsing gave a configuration, every
  listener was bound, the TLS configuration of every listener with TLS was built, and the
  listener checks and the storage construction returned no error. In every other case it
  returns 1. Without a configuration path it returns 1 after writing the usage error and
  nothing else. The values of \<open>-skip\<close> do not occur.
\<close>

lemma exit_code_zero_iff_checks_succeed:
  "(fst (RunWithParsedFlags env w) = Exit 0 \<longleftrightarrow>
      flagConfigs (cmd w) \<noteq> []
      \<and> (\<exists>cfg. parseConfig env (flagConfigs (cmd w)) = Inr cfg
            \<and> bind_error env (Listeners cfg) = None
            \<and> tls_error env (bound_listeners env (Listeners cfg)) = None
            \<and> ListenerChecks env (sanitized (bound_listeners env (Listeners cfg))) = None
            \<and> setupStorage env cfg = None))
   \<and> (fst (RunWithParsedFlags env w) \<noteq> Exit 0 \<longrightarrow> fst (RunWithParsedFlags env w) = Exit 1)
   \<and> (flagConfigs (cmd w) = [] \<longrightarrow>
        RunWithParsedFlags env w =
          (Exit 1, emit (UI_Error ''Must specify a configuration file using -config.'') w))"
proof (cases "flagConfigs (cmd w) = []")
  case True
  then show ?thesis by (simp add: Run_no_config)
next
  case False
  show ?thesis
  proof (cases "parseConfig env (flagConfigs (cmd w))")
    case (Inl e)
    then show ?thesis using False by (simp add: Run_fst)
  next
    case (Inr cfg)
    then show ?thesis using False by (simp add: Run_fst listeners_error_None)
  qed
qed

lemma exit_code_zero_iff_checks_succeed_witness:
  "fst (RunWithParsedFlags ex_env (ex_world [])) = Exit 0
   \<and> fst (RunWithParsedFlags ex_env_parse_fails (ex_world [])) = Exit 1
   \<and> fst (RunWithParsedFlags ex_env_bind_fails (ex_world [])) = Exit 1
   \<and> RunWithParsedFlags ex_env ex_world_no_config =
        (Exit 1, emit (UI_Error ''Must specify a configuration file using -config.'') ex_world_no_config)"
proof -
  have a: "fst (RunWithParsedFlags ex_env (ex_world [])) = Exit 0"
    using exit_code_zero_iff_checks_succeed [of ex_env "ex_world []"]
    by (simp add: ex_world_fields ex_ok)
  have b: "fst (RunWithParsedFlags ex_env_parse_fails (ex_world [])) = Exit 1"
    using exit_code_zero_iff_checks_succeed [of ex_env_parse_fails "ex_world []"]
    by (simp add: ex_world_fields ex_parse_fails_fields)
  have c: "fst (RunWithParsedFlags ex_env_bind_fails (ex_world [])) = Exit 1"
    using exit_code_zero_iff_checks_succeed [of ex_env_bind_fails "ex_world []"]
    by (simp add: ex_world_fields ex_bind_fails_fields)
  have h: "flagConfigs (cmd ex_world_no_config) = []"
    by (simp add: ex_world_no_config_def)
  have d: "RunWithParsedFlags ex_env ex_world_no_config =
        (Exit 1, emit (UI_Error ''Must specify a configuration file using -config.'') ex_world_no_config)"
    using exit_code_zero_iff_checks_succeed [of ex_env ex_world_no_config] h by blast
  show ?thesis using a b c d by simp
qed

text \<open>
  C5. What the code does, against the claim: the exit code is the same whatever the
  values of \<open>-skip\<close> are. With "storage" among them, a configuration that parses and a
  listener check that succeeds, every check outside the skip set has succeeded; the
  storage factory is called all the same, and when it fails the command returns 1.
\<close>

theorem exit_code_ignores_skip_set:
  "fst (RunWithParsedFlags env (w\<lparr>cmd := (cmd w)\<lparr>flagSkips := skips\<rparr>\<rparr>)) =
     fst (RunWithParsedFlags env w)
   \<and> (flagConfigs (cmd w) \<noteq> []
        \<and> parseConfig env (flagConfigs (cmd w)) = Inr cfg
        \<and> listeners_error env cfg = None
        \<and> setupStorage env cfg = Some e
        \<and> ''storage'' \<in> set (flagSkips (cmd w))
        \<longrightarrow> fst (RunWithParsedFlags env w) = Exit 1)"
proof -
  let ?w = "w\<lparr>cmd := (cmd w)\<lparr>flagSkips := skips\<rparr>\<rparr>"
  have c: "flagConfigs (cmd ?w) = flagConfigs (cmd w)" by simp
  have a: "fst (RunWithParsedFlags env ?w) = fst (RunWithParsedFlags env w)"
  proof (cases "flagConfigs (cmd w) = []")
    case True
    then show ?thesis using c by (simp add: Run_no_config)
  next
    case False
    then have "flagConfigs (cmd ?w) \<noteq> []" using c by simp
    then show ?thesis using False by (simp add: Run_fst)
  qed
  have b: "flagConfigs (cmd w) \<noteq> []
        \<and> parseConfig env (flagConfigs (cmd w)) = Inr cfg
        \<and> listeners_error env cfg = None
        \<and> setupStorage env cfg = Some e
        \<and> ''storage'' \<in> set (flagSkips (cmd w))
        \<longrightarrow> fst (RunWithParsedFlags env w) = Exit 1"
    by (simp add: Run_fst)
  show ?thesis using a b by blast
qed

theorem exit_code_ignores_skip_set_witness:
  "flagConfigs (cmd (ex_world [''storage''])) \<noteq> []
   \<and> parseConfig ex_env_storage_fails (flagConfigs (cmd (ex_world [''storage'']))) = Inr ex_config
   \<and> listeners_error ex_env_storage_fails ex_config = None
   \<and> setupStorage ex_env_storage_fails ex_config = Some ''storage unreachable''
   \<and> ''storage'' \<in> set (flagSkips (cmd (ex_world [''storage''])))
   \<and> fst (RunWithParsedFlags ex_env_storage_fails (ex_world [''storage''])) = Exit 1"
proof -
  have h: "flagConfigs (cmd (ex_world [''storage''])) \<noteq> []
   \<and> parseConfig ex_env_storage_fails (flagConfigs (cmd (ex_world [''storage'']))) = Inr ex_config
   \<and> listeners_error ex_env_storage_fails ex_config = None
   \<and> setupStorage ex_env_storage_fails ex_config = Some ''storage unreachable''
   \<and> ''storage'' \<in> set (flagSkips (cmd (ex_world [''storage''])))"
    by (simp add: ex_world_fields ex_storage_fails_fields)
  show ?thesis
    using exit_code_ignores_skip_set
            [where env = ex_env_storage_fails and w = "ex_world [''storage'']" and skips = "[]"
               and cfg = ex_config and e = "''storage unreachable''"] h
    by blast
qed

lemma tree_report_of [simp]: "tree (report_of t) = t"
  by (simp add: report_of_def)

section \<open>The report\<close>

text \<open>
  C2. In a run that was given a configuration path, the reporter is shut down once and the
  report is written to standard output once, as the last two things the run does,
  whichever check fails or none. The report written is the span tree as it is then: the
  root span and one span for each check that was started.
\<close>

theorem report_written_exactly_once:
  assumes "flagConfigs (cmd w) \<noteq> []"
  shows "reports_written (trace (snd (RunWithParsedFlags env w))) =
           reports_written (trace w) @ [report_of (spans (snd (RunWithParsedFlags env w)))]
         \<and> count_list (trace (snd (RunWithParsedFlags env w))) Diag_Shutdown =
             count_list (trace w) Diag_Shutdown + 1
         \<and> (\<exists>evs. trace (snd (RunWithParsedFlags env w)) =
                     trace w @ evs
                     @ [Diag_Shutdown, Stdout_Write (report_of (spans (snd (RunWithParsedFlags env w))))])
         \<and> all_names (tree (report_of (spans (snd (RunWithParsedFlags env w))))) =
             ''initialization'' # started_checks env w"
proof -
  let ?w' = "snd (RunWithParsedFlags env w)"
  have tr: "trace ?w' = trace w @ Diag_Init # check_events env w
              @ [Diag_Shutdown, Stdout_Write (report_of (spans ?w'))]"
    using assms by (rule Run_trace)
  have a: "reports_written (trace ?w') = reports_written (trace w) @ [report_of (spans ?w')]"
    by (subst tr) (simp add: check_events_views)
  have b: "count_list (trace ?w') Diag_Shutdown = count_list (trace w) Diag_Shutdown + 1"
    by (subst tr) (simp add: check_events_views count_list_0_iff)
  have c: "\<exists>evs. trace ?w' = trace w @ evs @ [Diag_Shutdown, Stdout_Write (report_of (spans ?w'))]"
    by (rule exI [of _ "Diag_Init # check_events env w"]) (subst tr, simp)
  have d: "all_names (tree (report_of (spans ?w'))) = ''initialization'' # started_checks env w"
    using assms by (simp add: Run_names)
  show ?thesis using a b c d by blast
qed

theorem report_written_exactly_once_witness:
  "flagConfigs (cmd (ex_world [])) \<noteq> []
   \<and> reports_written (trace (snd (RunWithParsedFlags ex_env_parse_fails (ex_world [])))) =
       [report_of (spans (snd (RunWithParsedFlags ex_env_parse_fails (ex_world []))))]
   \<and> count_list (trace (snd (RunWithParsedFlags ex_env_parse_fails (ex_world [])))) Diag_Shutdown = 1
   \<and> all_names (tree (report_of (spans (snd (RunWithParsedFlags ex_env_parse_fails (ex_world []))))))
       = [''initialization'', ''Parse configuration'']"
proof -
  have h: "flagConfigs (cmd (ex_world [])) \<noteq> []" by (simp add: ex_world_fields)
  show ?thesis
    using report_written_exactly_once [OF h, of ex_env_parse_fails] h
    by (simp add: ex_world_fields started_checks_def ex_parse_fails_fields)
qed

section \<open>The cleanup guard\<close>

text \<open>
  C3. A second request to the cleanup guard changes nothing, whatever it asks for; after
  a request the guard is used; a request to a used guard is a no-op and a request to an
  unused guard runs the action. In a run the listeners are closed by one pass over the
  listeners bound, or not at all; a run that starts with the guard used closes nothing.
\<close>

theorem cleanup_runs_at_most_once:
  "cleanupGuard_Do g (cleanupGuard_Do f w) = cleanupGuard_Do f w
   \<and> once_done (cleanupGuard (cmd (cleanupGuard_Do f w)))
   \<and> (once_done (cleanupGuard (cmd w)) \<longrightarrow> cleanupGuard_Do f w = w)
   \<and> (\<not> once_done (cleanupGuard (cmd w)) \<longrightarrow>
        cleanupGuard_Do f w = (f w)\<lparr>cmd := (cmd (f w))\<lparr>cleanupGuard := \<lparr>once_done = True\<rparr>\<rparr>\<rparr>)
   \<and> (flagConfigs (cmd w) \<noteq> [] \<longrightarrow>
        (\<exists>hs. closed_handles (trace (snd (RunWithParsedFlags env w))) = closed_handles (trace w) @ hs
           \<and> (hs = [] \<or>
                (\<not> once_done (cleanupGuard (cmd w))
                 \<and> (\<exists>cfg. parseConfig env (flagConfigs (cmd w)) = Inr cfg
                       \<and> hs = map Listener (bound_listeners env (Listeners cfg)))))))
   \<and> (once_done (cleanupGuard (cmd w)) \<longrightarrow>
        closed_handles (trace (snd (RunWithParsedFlags env w))) = closed_handles (trace w))"
proof -
  have a: "cleanupGuard_Do g (cleanupGuard_Do f w) = cleanupGuard_Do f w"
    by (simp add: cleanupGuard_Do_def Let_def)
  have b: "once_done (cleanupGuard (cmd (cleanupGuard_Do f w)))"
    by (simp add: cleanupGuard_Do_def Let_def)
  have c: "once_done (cleanupGuard (cmd w)) \<longrightarrow> cleanupGuard_Do f w = w"
    by (simp add: cleanupGuard_Do_def)
  have d: "\<not> once_done (cleanupGuard (cmd w)) \<longrightarrow>
        cleanupGuard_Do f w = (f w)\<lparr>cmd := (cmd (f w))\<lparr>cleanupGuard := \<lparr>once_done = True\<rparr>\<rparr>\<rparr>"
    by (simp add: cleanupGuard_Do_def Let_def)
  have cl: "flagConfigs (cmd w) \<noteq> [] \<Longrightarrow>
      closed_handles (trace (snd (RunWithParsedFlags env w))) =
        closed_handles (trace w) @ closed_handles (check_events env w)"
    by (subst Run_trace) simp_all
  have cl0: "flagConfigs (cmd w) = [] \<Longrightarrow>
      closed_handles (trace (snd (RunWithParsedFlags env w))) = closed_handles (trace w)"
    by (simp add: Run_no_config)
  have e: "flagConfigs (cmd w) \<noteq> [] \<longrightarrow>
        (\<exists>hs. closed_handles (trace (snd (RunWithParsedFlags env w))) = closed_handles (trace w) @ hs
           \<and> (hs = [] \<or>
                (\<not> once_done (cleanupGuard (cmd w))
                 \<and> (\<exists>cfg. parseConfig env (flagConfigs (cmd w)) = Inr cfg
                       \<and> hs = map Listener (bound_listeners env (Listeners cfg))))))"
  proof
    assume nc: "flagConfigs (cmd w) \<noteq> []"
    show "\<exists>hs. closed_handles (trace (snd (RunWithParsedFlags env w))) = closed_handles (trace w) @ hs
           \<and> (hs = [] \<or>
                (\<not> once_done (cleanupGuard (cmd w))
                 \<and> (\<exists>cfg. parseConfig env (flagConfigs (cmd w)) = Inr cfg
                       \<and> hs = map Listener (bound_listeners env (Listeners cfg)))))"
      by (rule exI [of _ "closed_handles (check_events env w)"])
         (simp add: cl [OF nc] check_events_views split: sum.split)
  qed
  have f: "once_done (cleanupGuard (cmd w)) \<longrightarrow>
        closed_handles (trace (snd (RunWithParsedFlags env w))) = closed_handles (trace w)"
  proof (cases "flagConfigs (cmd w) = []")
    case True
    then show ?thesis by (simp add: cl0)
  next
    case False
    then show ?thesis by (simp add: cl check_events_views split: sum.split)
  qed
  show ?thesis using a b c d e f by blast
qed

theorem cleanup_runs_at_most_once_witness:
  "flagConfigs (cmd (ex_world [])) \<noteq> [] \<and> \<not> once_done (cleanupGuard (cmd (ex_world [])))
   \<and> (closed_handles (trace (snd (RunWithParsedFlags ex_env (ex_world [])))) = []
       \<or> closed_handles (trace (snd (RunWithParsedFlags ex_env (ex_world [])))) = [3, 4])
   \<and> once_done (cleanupGuard (cmd ex_world_released))
   \<and> closed_handles (trace (snd (RunWithParsedFlags ex_env ex_world_released))) = []"
proof -
  have h: "flagConfigs (cmd (ex_world [])) \<noteq> []" "\<not> once_done (cleanupGuard (cmd (ex_world [])))"
    by (simp_all add: ex_world_fields)
  have a: "closed_handles (trace (snd (RunWithParsedFlags ex_env (ex_world [])))) = []
       \<or> closed_handles (trace (snd (RunWithParsedFlags ex_env (ex_world [])))) = [3, 4]"
    using cleanup_runs_at_most_once [of "\<lambda>w. w" "\<lambda>w. w" "ex_world []" ex_env] h
    by (auto simp add: ex_world_fields ex_env_fields)
  have b: "closed_handles (trace (snd (RunWithParsedFlags ex_env ex_world_released))) = []"
    using cleanup_runs_at_most_once [of "\<lambda>w. w" "\<lambda>w. w" ex_world_released ex_env]
    by (simp add: ex_released_fields)
  show ?thesis using h a b by (simp add: ex_released_fields)
qed

section \<open>Order of the checks\<close>

text \<open>
  C4. The checks run one after the other in the order "Parse configuration",
  "init-listeners", "storage", and an error from one of them ends the run with exit code 1
  before the next starts. After a parse failure the report holds the root span and the
  span of the parse check only: no span named "init-listeners" or "storage".
\<close>

theorem checks_sequential_fail_fast:
  assumes "flagConfigs (cmd w) \<noteq> []"
  shows "filter check_entry (trace (snd (RunWithParsedFlags env w))) =
           filter check_entry (trace w)
           @ Call_parseConfig (flagConfigs (cmd w))
             # (case parseConfig env (flagConfigs (cmd w)) of
                  Inl e \<Rightarrow> []
                | Inr cfg \<Rightarrow>
                    Call_InitListeners
                    # (if listeners_error env cfg = None then [Call_setupStorage] else []))
         \<and> all_names (spans (snd (RunWithParsedFlags env w))) =
             ''initialization'' # ''Parse configuration''
             # (case parseConfig env (flagConfigs (cmd w)) of
                  Inl e \<Rightarrow> []
                | Inr cfg \<Rightarrow>
                    ''init-listeners'' # (if listeners_error env cfg = None then [''storage''] else []))
         \<and> last (trace (snd (RunWithParsedFlags env w))) =
             Stdout_Write (report_of (spans (snd (RunWithParsedFlags env w))))
         \<and> (\<forall>e. parseConfig env (flagConfigs (cmd w)) = Inl e \<longrightarrow>
               fst (RunWithParsedFlags env w) = Exit 1
               \<and> ''init-listeners'' \<notin> set (all_names (spans (snd (RunWithParsedFlags env w))))
               \<and> ''storage'' \<notin> set (all_names (spans (snd (RunWithParsedFlags env w)))))
         \<and> (\<forall>cfg e. parseConfig env (flagConfigs (cmd w)) = Inr cfg \<and> listeners_error env cfg = Some e \<longrightarrow>
               fst (RunWithParsedFlags env w) = Exit 1
               \<and> ''storage'' \<notin> set (all_names (spans (snd (RunWithParsedFlags env w)))))
         \<and> (\<forall>cfg e. parseConfig env (flagConfigs (cmd w)) = Inr cfg \<and> listeners_error env cfg = None
                 \<and> setupStorage env cfg = Some e \<longrightarrow>
               fst (RunWithParsedFlags env w) = Exit 1)"
proof -
  let ?w' = "snd (RunWithParsedFlags env w)"
  have tr: "trace ?w' = trace w @ Diag_Init # check_events env w
              @ [Diag_Shutdown, Stdout_Write (report_of (spans ?w'))]"
    using assms by (rule Run_trace)
  have a: "filter check_entry (trace ?w') =
           filter check_entry (trace w)
           @ Call_parseConfig (flagConfigs (cmd w))
             # (case parseConfig env (flagConfigs (cmd w)) of
                  Inl e \<Rightarrow> []
                | Inr cfg \<Rightarrow>
                    Call_InitListeners
                    # (if listeners_error env cfg = None then [Call_setupStorage] else []))"
    by (subst tr) (simp add: check_events_views)
  have b: "all_names (spans ?w') =
             ''initialization'' # ''Parse configuration''
             # (case parseConfig env (flagConfigs (cmd w)) of
                  Inl e \<Rightarrow> []
                | Inr cfg \<Rightarrow>
                    ''init-listeners'' # (if listeners_error env cfg = None then [''storage''] else []))"
    using assms by (simp add: Run_names started_checks_def)
  have c: "last (trace ?w') = Stdout_Write (report_of (spans ?w'))"
    by (subst tr) simp
  have d: "\<forall>e. parseConfig env (flagConfigs (cmd w)) = Inl e \<longrightarrow>
               fst (RunWithParsedFlags env w) = Exit 1
               \<and> ''init-listeners'' \<notin> set (all_names (spans ?w'))
               \<and> ''storage'' \<notin> set (all_names (spans ?w'))"
    using assms by (simp add: b Run_fst)
  have e: "\<forall>cfg e. parseConfig env (flagConfigs (cmd w)) = Inr cfg \<and> listeners_error env cfg = Some e \<longrightarrow>
               fst (RunWithParsedFlags env w) = Exit 1
               \<and> ''storage'' \<notin> set (all_names (spans ?w'))"
    using assms by (simp add: b Run_fst)
  have f: "\<forall>cfg e. parseConfig env (flagConfigs (cmd w)) = Inr cfg \<and> listeners_error env cfg = None
                 \<and> setupStorage env cfg = Some e \<longrightarrow>
               fst (RunWithParsedFlags env w) = Exit 1"
    using assms by (simp add: Run_fst)
  show ?thesis using a b c d e f by blast
qed

theorem checks_sequential_fail_fast_witness:
  "flagConfigs (cmd (ex_world [])) \<noteq> []
   \<and> parseConfig ex_env_parse_fails (flagConfigs (cmd (ex_world []))) = Inl ''invalid syntax''
   \<and> fst (RunWithParsedFlags ex_env_parse_fails (ex_world [])) = Exit 1
   \<and> all_names (spans (snd (RunWithParsedFlags ex_env_parse_fails (ex_world [])))) =
       [''initialization'', ''Parse configuration'']
   \<and> filter check_entry (trace (snd (RunWithParsedFlags ex_env (ex_world [])))) =
       [Call_parseConfig [''config.hcl''], Call_InitListeners, Call_setupStorage]"
proof -
  have h: "flagConfigs (cmd (ex_world [])) \<noteq> []" by (simp add: ex_world_fields)
  have a: "fst (RunWithParsedFlags ex_env_parse_fails (ex_world [])) = Exit 1
     \<and> all_names (spans (snd (RunWithParsedFlags ex_env_parse_fails (ex_world [])))) =
       [''initialization'', ''Parse configuration'']"
    using checks_sequential_fail_fast [OF h, of ex_env_parse_fails]
    by (simp add: ex_world_fields ex_parse_fails_fields)
  have b: "filter check_entry (trace (snd (RunWithParsedFlags ex_env (ex_world [])))) =
       [Call_parseConfig [''config.hcl''], Call_InitListeners, Call_setupStorage]"
    using checks_sequential_fail_fast [OF h, of ex_env]
    by (simp add: ex_world_fields ex_ok)
  show ?thesis using h a b by (simp add: ex_parse_fails_fields)
qed

section \<open>When the listeners are closed\<close>

text \<open>
  C10. In a run whose listeners were all bound, with a guard not yet used, the listeners
  are closed when the function literal of "init-listeners" returns: its log ends with the
  close calls, every close call of the run comes before the call of the storage factory,
  which follows at once when the check succeeded, and no bound listener is open at the
  end of the run.
\<close>

theorem listeners_closed_before_storage:
  assumes "flagConfigs (cmd w) \<noteq> []"
    and "parseConfig env (flagConfigs (cmd w)) = Inr cfg"
    and "bind_error env (Listeners cfg) = None"
    and "\<not> once_done (cleanupGuard (cmd w))"
  shows "(\<exists>pre post.
            trace (snd (RunWithParsedFlags env w)) = trace w @ pre @ post
            \<and> closed_handles pre = map Listener (bound_listeners env (Listeners cfg))
            \<and> Call_setupStorage \<notin> set pre
            \<and> closed_handles post = []
            \<and> (listeners_error env cfg = None \<longrightarrow> hd post = Call_setupStorage))
         \<and> (\<forall>ln \<in> set (bound_listeners env (Listeners cfg)).
               Listener ln \<notin> set (open_listeners (snd (RunWithParsedFlags env w))))
         \<and> (\<forall>dc ctx w0. \<not> once_done (cleanupGuard (cmd w0)) \<longrightarrow>
               (\<exists>evs. trace (snd (initListenersCheck env cfg dc ctx w0)) =
                        trace w0 @ evs
                        @ map (\<lambda>ln. Call_Close (Listener ln)) (bound_listeners env (Listeners cfg))))"
proof -
  let ?w' = "snd (RunWithParsedFlags env w)"
  let ?lns = "bound_listeners env (Listeners cfg)"
  let ?pre = "Diag_Init # UI_Output (FullVersionNumber env) # Call_parseConfig (flagConfigs (cmd w))
                # listeners_events env cfg False"
  let ?post = "(if listeners_error env cfg = None then [Call_setupStorage] else [])
                 @ [Diag_Shutdown, Stdout_Write (report_of (spans ?w'))]"
  have tr: "trace ?w' = trace w @ Diag_Init # check_events env w
              @ [Diag_Shutdown, Stdout_Write (report_of (spans ?w'))]"
    using assms(1) by (rule Run_trace)
  have ce: "check_events env w =
      UI_Output (FullVersionNumber env) # Call_parseConfig (flagConfigs (cmd w))
      # listeners_events env cfg False
      @ (if listeners_error env cfg = None then [Call_setupStorage] else [])"
    using assms(2,4) by (simp add: check_events_def)
  have split: "trace ?w' = trace w @ ?pre @ ?post"
    by (subst tr) (simp add: ce)
  have pre: "closed_handles ?pre = map Listener ?lns" "Call_setupStorage \<notin> set ?pre"
    using assms(3) by (simp_all add: listeners_events_views)
  have post: "closed_handles ?post = []" "listeners_error env cfg = None \<longrightarrow> hd ?post = Call_setupStorage"
    by simp_all
  have a: "\<exists>pre post.
            trace ?w' = trace w @ pre @ post
            \<and> closed_handles pre = map Listener ?lns
            \<and> Call_setupStorage \<notin> set pre
            \<and> closed_handles post = []
            \<and> (listeners_error env cfg = None \<longrightarrow> hd post = Call_setupStorage)"
    by (rule exI [of _ ?pre], rule exI [of _ ?post]) (intro conjI split pre post)
  have b: "\<forall>ln \<in> set ?lns. Listener ln \<notin> set (open_listeners ?w')"
    using assms by (simp add: Run_open)
  have c: "\<forall>dc ctx w0. \<not> once_done (cleanupGuard (cmd w0)) \<longrightarrow>
               (\<exists>evs. trace (snd (initListenersCheck env cfg dc ctx w0)) =
                        trace w0 @ evs @ map (\<lambda>ln. Call_Close (Listener ln)) ?lns)"
  proof (intro allI impI)
    fix dc ctx and w0 :: world
    assume "\<not> once_done (cleanupGuard (cmd w0))"
    then have "trace (snd (initListenersCheck env cfg dc ctx w0)) =
        trace w0 @ (Call_InitListeners # map Call_NewListener (bind_attempts env (Listeners cfg))
          @ map Call_TLSConfig (tls_attempts env ?lns)
          @ (case tls_error env ?lns of Some e \<Rightarrow> [] | None \<Rightarrow> [Call_ListenerChecks (sanitized ?lns)]))
        @ map (\<lambda>ln. Call_Close (Listener ln)) ?lns"
      using assms(3)
      by (simp add: initListenersCheck_fields listeners_events_def close_events_def)
    then show "\<exists>evs. trace (snd (initListenersCheck env cfg dc ctx w0)) =
                        trace w0 @ evs @ map (\<lambda>ln. Call_Close (Listener ln)) ?lns"
      by blast
  qed
  show ?thesis using a b c by blast
qed

theorem listeners_closed_before_storage_witness:
  "flagConfigs (cmd (ex_world [])) \<noteq> []
   \<and> parseConfig ex_env (flagConfigs (cmd (ex_world []))) = Inr ex_config
   \<and> bind_error ex_env (Listeners ex_config) = None
   \<and> \<not> once_done (cleanupGuard (cmd (ex_world [])))
   \<and> (\<exists>pre post.
         trace (snd (RunWithParsedFlags ex_env (ex_world []))) = pre @ post
         \<and> closed_handles pre = [3, 4]
         \<and> Call_setupStorage \<notin> set pre
         \<and> hd post = Call_setupStorage)
   \<and> open_listeners (snd (RunWithParsedFlags ex_env (ex_world []))) = []"
proof -
  have h: "flagConfigs (cmd (ex_world [])) \<noteq> []"
    "parseConfig ex_env (flagConfigs (cmd (ex_world []))) = Inr ex_config"
    "bind_error ex_env (Listeners ex_config) = None"
    "\<not> once_done (cleanupGuard (cmd (ex_world [])))"
    by (simp_all add: ex_world_fields ex_ok)
  have a: "\<exists>pre post.
         trace (snd (RunWithParsedFlags ex_env (ex_world []))) = pre @ post
         \<and> closed_handles pre = [3, 4]
         \<and> Call_setupStorage \<notin> set pre
         \<and> hd post = Call_setupStorage"
    using listeners_closed_before_storage [OF h]
    by (simp add: ex_world_fields ex_ok ex_env_fields) blast
  have b: "open_listeners (snd (RunWithParsedFlags ex_env (ex_world []))) = []"
    using h by (simp add: Run_open ex_world_fields)
  show ?thesis using h a b by blast
qed

section \<open>Which listeners the guard covers\<close>

text \<open>
  C6, as amended. Once \<open>InitListeners\<close> has returned without error, every listener of the
  configuration is bound and all of them are handed to the cleanup guard before any later
  step of the check can fail: whatever the TLS construction and the listener checks
  return, each bound listener is closed when the check returns, and the guard is used.
\<close>

theorem bound_listeners_covered_once_bound:
  assumes "bind_error env (Listeners cfg) = None"
    and "\<not> once_done (cleanupGuard (cmd w))"
  shows "closed_handles (trace (snd (initListenersCheck env cfg dc ctx w))) =
           closed_handles (trace w) @ map Listener (bound_listeners env (Listeners cfg))
         \<and> (\<forall>ln \<in> set (bound_listeners env (Listeners cfg)).
               Listener ln \<notin> set (open_listeners (snd (initListenersCheck env cfg dc ctx w))))
         \<and> once_done (cleanupGuard (cmd (snd (initListenersCheck env cfg dc ctx w))))
         \<and> map Config (bound_listeners env (Listeners cfg)) = Listeners cfg"
proof -
  have len: "\<And>lcs. bind_error env lcs = None \<Longrightarrow> map Config (bound_listeners env lcs) = lcs"
  proof -
    fix lcs
    show "bind_error env lcs = None \<Longrightarrow> map Config (bound_listeners env lcs) = lcs"
      by (induction lcs) (auto split: sum.splits)
  qed
  show ?thesis using assms
    by (simp add: initListenersCheck_fields listeners_events_views len)
qed

theorem bound_listeners_covered_once_bound_witness:
  "bind_error ex_env_tls_fails (Listeners ex_config) = None
   \<and> \<not> once_done (cleanupGuard (cmd (ex_world [])))
   \<and> fst (initListenersCheck ex_env_tls_fails ex_config False [0, 1] (ex_world [])) =
       Some ''error creating TLS Configuration out of config file: open cert.pem: no such file''
   \<and> closed_handles (trace (snd (initListenersCheck ex_env_tls_fails ex_config False [0, 1] (ex_world []))))
       = [3, 4]
   \<and> open_listeners (snd (initListenersCheck ex_env_tls_fails ex_config False [0, 1] (ex_world []))) = []"
proof -
  have h: "bind_error ex_env_tls_fails (Listeners ex_config) = None"
    "\<not> once_done (cleanupGuard (cmd (ex_world [])))"
    by (simp_all add: ex_world_fields ex_tls_fails_fields)
  have a: "closed_handles (trace (snd (initListenersCheck ex_env_tls_fails ex_config False [0, 1] (ex_world []))))
       = [3, 4]"
    using bound_listeners_covered_once_bound [OF h, of False "[0, 1]"]
    by (simp add: ex_world_fields ex_tls_fails_fields)
  have b: "fst (initListenersCheck ex_env_tls_fails ex_config False [0, 1] (ex_world [])) =
       Some ''error creating TLS Configuration out of config file: open cert.pem: no such file''"
    by (simp add: initListenersCheck_fields ex_tls_fails_fields)
  have c: "open_listeners (snd (initListenersCheck ex_env_tls_fails ex_config False [0, 1] (ex_world []))) = []"
    using h by (simp add: initListenersCheck_fields ex_world_fields)
  show ?thesis using h a b c by blast
qed

text \<open>
  C6, as stated, fails: the listeners are handed to the guard only after \<open>InitListeners\<close>
  has returned without error. When the second listener cannot be bound, the first stays
  open to the end of the run and the guard is never asked.
\<close>

theorem bind_failure_leaves_listener_open:
  "fst (RunWithParsedFlags ex_env_bind_fails (ex_world [])) = Exit 1
   \<and> open_listeners (snd (RunWithParsedFlags ex_env_bind_fails (ex_world []))) = [3]
   \<and> closed_handles (trace (snd (RunWithParsedFlags ex_env_bind_fails (ex_world [])))) = []
   \<and> \<not> once_done (cleanupGuard (cmd (snd (RunWithParsedFlags ex_env_bind_fails (ex_world [])))))"
proof -
  have h: "flagConfigs (cmd (ex_world [])) \<noteq> []" by (simp add: ex_world_fields)
  have a: "fst (RunWithParsedFlags ex_env_bind_fails (ex_world [])) = Exit 1"
    by (simp add: Run_fst [OF h] ex_bind_fails_fields)
  have b: "open_listeners (snd (RunWithParsedFlags ex_env_bind_fails (ex_world []))) = [3]"
    by (simp add: Run_open [OF h] ex_bind_fails_fields ex_world_fields)
  have c: "closed_handles (trace (snd (RunWithParsedFlags ex_env_bind_fails (ex_world [])))) = []"
    by (subst Run_trace [OF h]) (simp add: check_events_views ex_bind_fails_fields ex_world_fields)
  have d: "\<not> once_done (cleanupGuard (cmd (snd (RunWithParsedFlags ex_env_bind_fails (ex_world [])))))"
    by (simp add: Run_cmd [OF h] ex_bind_fails_fields ex_world_fields)
  show ?thesis using a b c d by blast
qed

section \<open>A listener with TLS disabled\<close>

text \<open>
  C7. For a listener whose configuration disables TLS, the pass of the loop records one
  warning on the active span and nothing else: the number of warnings in the tree grows
  by one, the number of errors stays, no TLS configuration is built and the check does
  not return. The listener is not among the sanitized listeners, so it is in no list
  passed to \<open>ListenerChecks\<close>, and it is still closed by the cleanup guard when the check
  returns.
\<close>

theorem tls_disabled_listener_warned_and_excluded:
  assumes "TLSDisable (Config ln)"
  shows "process_listener env ctx ln sanitizedListeners w =
           (Inr sanitizedListeners,
            diagnose_Warn ctx ''TLS is disabled in a Listener config stanza.'' w)
         \<and> trace (snd (process_listener env ctx ln sanitizedListeners w)) = trace w
         \<and> (get_span ctx (spans w) \<noteq> None \<longrightarrow>
               count_messages SevWarn (spans (snd (process_listener env ctx ln sanitizedListeners w)))
                 = count_messages SevWarn (spans w) + 1
               \<and> count_messages SevError (spans (snd (process_listener env ctx ln sanitizedListeners w)))
                 = count_messages SevError (spans w))
         \<and> ln \<notin> set (sanitized lns)
         \<and> (\<forall>dc c (w0::world).
               bind_error env (Listeners cfg) = None
               \<and> ln \<in> set (bound_listeners env (Listeners cfg))
               \<and> \<not> once_done (cleanupGuard (cmd w0)) \<longrightarrow>
               Call_Close (Listener ln)
                 \<in> set (drop (length (trace w0)) (trace (snd (initListenersCheck env cfg dc c w0))))
               \<and> (\<forall>san. Call_ListenerChecks san
                           \<in> set (drop (length (trace w0))
                                    (trace (snd (initListenersCheck env cfg dc c w0))))
                         \<longrightarrow> ln \<notin> set san))"
proof -
  have a: "process_listener env ctx ln sanitizedListeners w =
           (Inr sanitizedListeners,
            diagnose_Warn ctx ''TLS is disabled in a Listener config stanza.'' w)"
    using assms by (rule process_listener_disabled)
  have b: "trace (snd (process_listener env ctx ln sanitizedListeners w)) = trace w"
    by (simp add: a)
  have c: "get_span ctx (spans w) \<noteq> None \<longrightarrow>
               count_messages SevWarn (spans (snd (process_listener env ctx ln sanitizedListeners w)))
                 = count_messages SevWarn (spans w) + 1
               \<and> count_messages SevError (spans (snd (process_listener env ctx ln sanitizedListeners w)))
                 = count_messages SevError (spans w)"
    by (simp add: a count_messages_update_at del: update_at.simps)
  have d: "ln \<notin> set (sanitized lns)"
    using assms by (simp add: sanitized_def)
  have e: "\<forall>dc c (w0::world).
               bind_error env (Listeners cfg) = None
               \<and> ln \<in> set (bound_listeners env (Listeners cfg))
               \<and> \<not> once_done (cleanupGuard (cmd w0)) \<longrightarrow>
               Call_Close (Listener ln)
                 \<in> set (drop (length (trace w0)) (trace (snd (initListenersCheck env cfg dc c w0))))
               \<and> (\<forall>san. Call_ListenerChecks san
                           \<in> set (drop (length (trace w0))
                                    (trace (snd (initListenersCheck env cfg dc c w0))))
                         \<longrightarrow> ln \<notin> set san)"
  proof (intro allI impI)
    fix dc c and w0 :: world
    assume h: "bind_error env (Listeners cfg) = None
               \<and> ln \<in> set (bound_listeners env (Listeners cfg))
               \<and> \<not> once_done (cleanupGuard (cmd w0))"
    have ev: "drop (length (trace w0)) (trace (snd (initListenersCheck env cfg dc c w0)))
                = listeners_events env cfg False"
      using h by (simp add: initListenersCheck_fields)
    have "\<And>san. Call_ListenerChecks san \<in> set (listeners_events env cfg False) \<Longrightarrow> ln \<notin> set san"
    proof -
      fix san
      assume "Call_ListenerChecks san \<in> set (listeners_events env cfg False)"
      then have "san = sanitized (bound_listeners env (Listeners cfg))"
        by (rule ListenerChecks_event)
      then show "ln \<notin> set san" using assms by (simp add: sanitized_def)
    qed
    then show "Call_Close (Listener ln)
                 \<in> set (drop (length (trace w0)) (trace (snd (initListenersCheck env cfg dc c w0))))
               \<and> (\<forall>san. Call_ListenerChecks san
                           \<in> set (drop (length (trace w0))
                                    (trace (snd (initListenersCheck env cfg dc c w0))))
                         \<longrightarrow> ln \<notin> set san)"
      using h Close_event [of env cfg ln] by (simp add: ev)
  qed
  show ?thesis using a b c d e by blast
qed

theorem tls_disabled_listener_warned_and_excluded_witness:
  "TLSDisable (Config ex_listener_plain)
   \<and> get_span [0] (spans ex_world_started) \<noteq> None
   \<and> count_messages SevWarn (spans (snd (process_listener ex_env [0] ex_listener_plain [] ex_world_started))) = 1
   \<and> count_messages SevError (spans (snd (process_listener ex_env [0] ex_listener_plain [] ex_world_started))) = 0
   \<and> ex_listener_plain \<in> set (bound_listeners ex_env (Listeners ex_config))
   \<and> ex_listener_plain \<notin> set (sanitized (bound_listeners ex_env (Listeners ex_config)))
   \<and> Call_Close 4 \<in> set (trace (snd (initListenersCheck ex_env ex_config False [0] ex_world_started)))"
proof -
  have h: "TLSDisable (Config ex_listener_plain)"
    by (simp add: ex_listener_plain_def ex_plain_def)
  have g: "get_span [0] (spans ex_world_started) \<noteq> None"
    by (simp add: ex_started_fields)
  have b: "ex_listener_plain \<in> set (bound_listeners ex_env (Listeners ex_config))"
    by (simp add: ex_env_fields ex_listener_plain_def)
  have n: "\<not> once_done (cleanupGuard (cmd ex_world_started))"
    by (simp add: ex_started_fields)
  note t = tls_disabled_listener_warned_and_excluded
             [OF h, of ex_env "[0]" "[]" ex_world_started
                "bound_listeners ex_env (Listeners ex_config)" ex_config]
  have c: "count_messages SevWarn (spans (snd (process_listener ex_env [0] ex_listener_plain [] ex_world_started))) = 1
     \<and> count_messages SevError (spans (snd (process_listener ex_env [0] ex_listener_plain [] ex_world_started))) = 0"
  proof -
    have c0: "count_messages SevWarn (spans (snd (process_listener ex_env [0] ex_listener_plain [] ex_world_started)))
                = count_messages SevWarn (spans ex_world_started) + 1
              \<and> count_messages SevError (spans (snd (process_listener ex_env [0] ex_listener_plain [] ex_world_started)))
                = count_messages SevError (spans ex_world_started)"
      using t g by blast
    have z: "count_messages SevWarn (spans ex_world_started) = 0"
      "count_messages SevError (spans ex_world_started) = 0"
      by (simp_all add: ex_started_fields count_messages_def)
    show ?thesis using c0 z by simp
  qed
  have d: "ex_listener_plain \<notin> set (sanitized (bound_listeners ex_env (Listeners ex_config)))"
    using t by blast
  have "Call_Close (Listener ex_listener_plain)
          \<in> set (drop (length (trace ex_world_started))
                   (trace (snd (initListenersCheck ex_env ex_config False [0] ex_world_started))))"
    using t b n ex_ok(2) by blast
  then have e: "Call_Close 4 \<in> set (trace (snd (initListenersCheck ex_env ex_config False [0] ex_world_started)))"
    by (simp add: ex_started_fields ex_listener_plain_def)
  show ?thesis using h g b c d e by blast
qed

section \<open>Validation warnings\<close>

text \<open>
  C9. When parsing succeeds, the function literal of "Parse configuration" returns no
  error and appends the validation warnings, in order, as warnings to the active span;
  after \<open>Test\<close> the span "Parse configuration" is closed and holds exactly these
  warnings; and the run goes on to "init-listeners", whatever was recorded.
\<close>

theorem validation_warnings_recorded_run_continues:
  assumes "parseConfig env (flagConfigs (cmd w)) = Inr cfg"
  shows "fst (parseConfigCheck env ctx w) = None
         \<and> (\<forall>sp. get_span ctx (spans w) = Some sp \<longrightarrow>
               get_span ctx (spans (snd (parseConfigCheck env ctx w))) =
                 Some (add_messages (map (Pair SevWarn) (Validate env cfg)) sp))
         \<and> fst (diagnose_Test ctx ''Parse configuration'' [] (parseConfigCheck env) w) = None
         \<and> (ctx = [] \<or> get_span ctx (spans w) \<noteq> None \<longrightarrow>
               (\<exists>st. get_span (ctx @ [num_children ctx (spans w)])
                       (spans (snd (diagnose_Test ctx ''Parse configuration'' []
                                      (parseConfigCheck env) w))) =
                     Some (Span ''Parse configuration'' st
                             (map (Pair SevWarn) (Validate env cfg)) [] True)))
         \<and> (flagConfigs (cmd w) \<noteq> [] \<longrightarrow>
               (\<exists>evs. trace (snd (RunWithParsedFlags env w)) = trace w @ evs
                       \<and> Call_InitListeners \<in> set evs)
               \<and> ''init-listeners'' \<in> set (all_names (spans (snd (RunWithParsedFlags env w)))))"
proof -
  let ?ws = "map (Pair SevWarn) (Validate env cfg)"
  let ?ctx' = "ctx @ [num_children ctx (spans w)]"
  let ?w1 = "snd (diagnose_StartSpan ctx ''Parse configuration'' w)"
  have a: "fst (parseConfigCheck env ctx w) = None"
    using assms by (simp add: parseConfigCheck_fields)
  have b: "\<forall>sp. get_span ctx (spans w) = Some sp \<longrightarrow>
               get_span ctx (spans (snd (parseConfigCheck env ctx w))) = Some (add_messages ?ws sp)"
    using assms by (simp add: parseConfigCheck_fields get_span_update_at del: update_at.simps)
  have c: "fst (diagnose_Test ctx ''Parse configuration'' [] (parseConfigCheck env) w) = None"
    using assms by (simp add: Test_check_fields)
  have d: "ctx = [] \<or> get_span ctx (spans w) \<noteq> None \<longrightarrow>
               (\<exists>st. get_span ?ctx'
                       (spans (snd (diagnose_Test ctx ''Parse configuration'' []
                                      (parseConfigCheck env) w))) =
                     Some (Span ''Parse configuration'' st ?ws [] True))"
  proof
    assume v: "ctx = [] \<or> get_span ctx (spans w) \<noteq> None"
    have r: "fst (parseConfigCheck env ?ctx' ?w1) = None"
      using assms by (simp add: parseConfigCheck_fields)
    have s: "spans (snd (parseConfigCheck env ?ctx' ?w1)) =
               update_at ?ctx' (add_messages ?ws)
                 (add_child ctx (Span ''Parse configuration'' StOk [] [] False) (spans w))"
      using assms by (simp add: parseConfigCheck_fields del: update_at.simps add_child.simps)
    obtain r' w2 where p: "parseConfigCheck env ?ctx' ?w1 = (r', w2)"
      by (cases "parseConfigCheck env ?ctx' ?w1")
    have "spans (snd (diagnose_Test ctx ''Parse configuration'' [] (parseConfigCheck env) w))
            = end_at ?ctx' (spans (snd (parseConfigCheck env ?ctx' ?w1)))"
      using r p by (simp add: Test_spans del: end_at.simps update_at.simps)
    then have "get_span ?ctx'
                 (spans (snd (diagnose_Test ctx ''Parse configuration'' [] (parseConfigCheck env) w)))
               = Some (end_in [] (add_messages ?ws (Span ''Parse configuration'' StOk [] [] False)))"
      using get_span_add_child [OF v, of "Span ''Parse configuration'' StOk [] [] False"]
      by (simp add: s get_span_end_at get_span_update_at
            del: end_at.simps update_at.simps add_child.simps end_in.simps add_messages.simps)
    then show "\<exists>st. get_span ?ctx'
                       (spans (snd (diagnose_Test ctx ''Parse configuration'' []
                                      (parseConfigCheck env) w))) =
                     Some (Span ''Parse configuration'' st ?ws [] True)"
      by simp
  qed
  have e: "flagConfigs (cmd w) \<noteq> [] \<longrightarrow>
               (\<exists>evs. trace (snd (RunWithParsedFlags env w)) = trace w @ evs
                       \<and> Call_InitListeners \<in> set evs)
               \<and> ''init-listeners'' \<in> set (all_names (spans (snd (RunWithParsedFlags env w))))"
  proof
    assume nc: "flagConfigs (cmd w) \<noteq> []"
    have "Call_InitListeners \<in> set (check_events env w)"
      using assms by (simp add: check_events_def listeners_events_def)
    then have "\<exists>evs. trace (snd (RunWithParsedFlags env w)) = trace w @ evs
                       \<and> Call_InitListeners \<in> set evs"
      using Run_trace [OF nc, of env] by auto
    moreover have "''init-listeners'' \<in> set (all_names (spans (snd (RunWithParsedFlags env w))))"
      using assms by (simp add: Run_names [OF nc] started_checks_def)
    ultimately show "(\<exists>evs. trace (snd (RunWithParsedFlags env w)) = trace w @ evs
                       \<and> Call_InitListeners \<in> set evs)
               \<and> ''init-listeners'' \<in> set (all_names (spans (snd (RunWithParsedFlags env w))))"
      by blast
  qed
  show ?thesis using a b c d e by blast
qed

theorem validation_warnings_recorded_run_continues_witness:
  "parseConfig ex_env (flagConfigs (cmd ex_world_started)) = Inr ex_config
   \<and> get_span [0] (spans ex_world_started) \<noteq> None
   \<and> flagConfigs (cmd ex_world_started) \<noteq> []
   \<and> Validate ex_env ex_config = [''unknown or unsupported field x'']
   \<and> fst (diagnose_Test [0] ''Parse configuration'' [] (parseConfigCheck ex_env) ex_world_started) = None
   \<and> (\<exists>st. get_span [0, 0]
              (spans (snd (diagnose_Test [0] ''Parse configuration'' []
                             (parseConfigCheck ex_env) ex_world_started))) =
            Some (Span ''Parse configuration'' st
                    [(SevWarn, ''unknown or unsupported field x'')] [] True))
   \<and> ''init-listeners'' \<in> set (all_names (spans (snd (RunWithParsedFlags ex_env ex_world_started))))"
proof -
  have h: "parseConfig ex_env (flagConfigs (cmd ex_world_started)) = Inr ex_config"
    by (simp add: ex_ok)
  have g: "get_span [0] (spans ex_world_started) \<noteq> None"
    "flagConfigs (cmd ex_world_started) \<noteq> []"
    "Validate ex_env ex_config = [''unknown or unsupported field x'']"
    by (simp_all add: ex_started_fields ex_env_fields)
  note t = validation_warnings_recorded_run_continues [OF h, of "[0]"]
  have a: "fst (diagnose_Test [0] ''Parse configuration'' [] (parseConfigCheck ex_env) ex_world_started) = None"
    using t by blast
  have b: "\<exists>st. get_span [0, 0]
              (spans (snd (diagnose_Test [0] ''Parse configuration'' []
                             (parseConfigCheck ex_env) ex_world_started))) =
            Some (Span ''Parse configuration'' st
                    [(SevWarn, ''unknown or unsupported field x'')] [] True)"
    using t g by (simp add: ex_started_fields)
  have c: "''init-listeners'' \<in> set (all_names (spans (snd (RunWithParsedFlags ex_env ex_world_started))))"
    using t g by blast
  show ?thesis using h g a b c by blast
qed

section \<open>The message recorded at the start of a run\<close>

text \<open>
  C8. What the code does, against the claim: in every run that was given a configuration
  path, whatever the checks return and whatever \<open>-debug\<close> is, the root span of the report
  written holds the error message recorded by line 129, and no other message.
\<close>

theorem synthetic_error_recorded_in_every_run:
  assumes "flagConfigs (cmd w) \<noteq> []"
  shows "map span_messages (tree (report_of (spans (snd (RunWithParsedFlags env w))))) =
           [[(SevError, ''nope, didn't work'')]]
         \<and> last (trace (snd (RunWithParsedFlags env w))) =
             Stdout_Write (report_of (spans (snd (RunWithParsedFlags env w))))"
proof -
  have "last (trace (snd (RunWithParsedFlags env w))) =
          Stdout_Write (report_of (spans (snd (RunWithParsedFlags env w))))"
    by (subst Run_trace [OF assms]) simp
  then show ?thesis using Run_root_messages [OF assms, of env] by simp
qed

theorem synthetic_error_recorded_in_every_run_witness:
  "flagConfigs (cmd (ex_world [])) \<noteq> []
   \<and> \<not> flagDebug (cmd (ex_world []))
   \<and> fst (RunWithParsedFlags ex_env (ex_world [])) = Exit 0
   \<and> map span_messages (tree (report_of (spans (snd (RunWithParsedFlags ex_env (ex_world []))))))
       = [[(SevError, ''nope, didn't work'')]]
   \<and> map span_status (spans (snd (RunWithParsedFlags ex_env (ex_world [])))) = [StError]"
proof -
  have h: "flagConfigs (cmd (ex_world [])) \<noteq> []" "\<not> flagDebug (cmd (ex_world []))"
    by (simp_all add: ex_world_fields)
  have a: "fst (RunWithParsedFlags ex_env (ex_world [])) = Exit 0"
    by (simp add: Run_fst [OF h(1)] ex_ok)
  have b: "map span_messages (tree (report_of (spans (snd (RunWithParsedFlags ex_env (ex_world []))))))
       = [[(SevError, ''nope, didn't work'')]]"
    using synthetic_error_recorded_in_every_run [OF h(1), of ex_env] by blast
  have c: "map span_status (spans (snd (RunWithParsedFlags ex_env (ex_world [])))) = [StError]"
    by code_simp
  show ?thesis using h a b c by blast
qed

section \<open>The skip set\<close>

text \<open>
  C1. What the code does, against the claim: with "storage" among the values of \<open>-skip\<close>,
  in a run whose configuration parses and whose listener check succeeds, the storage
  factory is called all the same, the exit code is 1 when it fails, and the report has a
  span named "storage" that the check itself produced.
\<close>

theorem skip_flag_has_no_effect:
  assumes "flagConfigs (cmd w) \<noteq> []"
    and "parseConfig env (flagConfigs (cmd w)) = Inr cfg"
    and "listeners_error env cfg = None"
    and "''storage'' \<in> set (flagSkips (cmd w))"
  shows "(\<exists>evs. trace (snd (RunWithParsedFlags env w)) = trace w @ evs
                \<and> Call_setupStorage \<in> set evs)
         \<and> fst (RunWithParsedFlags env w) =
             (case setupStorage env cfg of None \<Rightarrow> Exit 0 | Some e \<Rightarrow> Exit 1)
         \<and> ''storage'' \<in> set (all_names (spans (snd (RunWithParsedFlags env w))))"
proof -
  have "Call_setupStorage \<in> set (check_events env w)"
    using assms(2,3) by (simp add: check_events_def)
  then have a: "\<exists>evs. trace (snd (RunWithParsedFlags env w)) = trace w @ evs
                \<and> Call_setupStorage \<in> set evs"
    using Run_trace [OF assms(1), of env] by auto
  have b: "fst (RunWithParsedFlags env w) =
             (case setupStorage env cfg of None \<Rightarrow> Exit 0 | Some e \<Rightarrow> Exit 1)"
    using assms(2,3) by (simp add: Run_fst [OF assms(1)] split: option.split)
  have c: "''storage'' \<in> set (all_names (spans (snd (RunWithParsedFlags env w))))"
    using assms(2,3) by (simp add: Run_names [OF assms(1)] started_checks_def)
  show ?thesis using a b c by blast
qed

theorem skip_flag_has_no_effect_witness:
  "flagConfigs (cmd (ex_world [''storage''])) \<noteq> []
   \<and> parseConfig ex_env (flagConfigs (cmd (ex_world [''storage'']))) = Inr ex_config
   \<and> listeners_error ex_env ex_config = None
   \<and> ''storage'' \<in> set (flagSkips (cmd (ex_world [''storage''])))
   \<and> Call_setupStorage \<in> set (trace (snd (RunWithParsedFlags ex_env (ex_world [''storage'']))))
   \<and> get_span [0, 2] (spans (snd (RunWithParsedFlags ex_env (ex_world [''storage'']))))
       = Some (Span ''storage'' StOk [] [] True)
   \<and> fst (RunWithParsedFlags ex_env_storage_fails (ex_world [''storage''])) = Exit 1"
proof -
  have h: "flagConfigs (cmd (ex_world [''storage''])) \<noteq> []"
    "parseConfig ex_env (flagConfigs (cmd (ex_world [''storage'']))) = Inr ex_config"
    "listeners_error ex_env ex_config = None"
    "''storage'' \<in> set (flagSkips (cmd (ex_world [''storage''])))"
    by (simp_all add: ex_world_fields ex_ok)
  have h': "parseConfig ex_env_storage_fails (flagConfigs (cmd (ex_world [''storage'']))) = Inr ex_config"
    "listeners_error ex_env_storage_fails ex_config = None"
    by (simp_all add: ex_storage_fails_fields)
  have a: "Call_setupStorage \<in> set (trace (snd (RunWithParsedFlags ex_env (ex_world [''storage'']))))"
    using skip_flag_has_no_effect [OF h] by (auto simp add: ex_world_fields)
  have b: "get_span [0, 2] (spans (snd (RunWithParsedFlags ex_env (ex_world [''storage'']))))
       = Some (Span ''storage'' StOk [] [] True)"
    by code_simp
  have c: "fst (RunWithParsedFlags ex_env_storage_fails (ex_world [''storage''])) = Exit 1"
    using skip_flag_has_no_effect [OF h(1) h' h(4)] by (simp add: ex_storage_fails_fields)
  show ?thesis using h a b c by blast
qed

end
